theory Spec2Isabelle
  imports Complex_Main "HOL-Library.Word" "HOL-Library.Signed_Division" "HOL-Library.Log_Nat"
begin

unbundle bit_operations_syntax

section \<open>The pdf graphic context of draw2dpdf (gc.go)\<close>

text \<open>
  A shallow embedding of \<^verbatim>\<open>draw2dpdf/gc.go\<close>: the conversion of font units, the
  tracing of glyph contours, the layout of strings, the dispatch of fill and stroke
  commands to the pdf document, and the save/restore of the context.

  Conventions of the embedding.
  \<^item> Go's \<^verbatim>\<open>int32\<close> and \<^verbatim>\<open>uint32\<close> are 32-bit words; a shift wraps, the signed
    reading is \<open>sint\<close>, the unsigned one \<open>uint\<close>.
  \<^item> The values of Go's \<^verbatim>\<open>float64\<close> are real numbers; there is no NaN and no
    infinity. The cursor of \<open>CreateStringPath\<close> is computed as the source computes
    it, every addition and subtraction rounded to binary64 (\<open>fadd\<close>, \<open>fsub\<close>), since
    the value returned depends on the rounding. Elsewhere sums, differences and
    quotients are written unrounded. For \<open>fUnitsToFloat64\<close> this loses nothing, since
    every value met there is a multiple of \<open>1/256\<close> below \<open>2^31\<close> in magnitude,
    which binary64 holds exactly (lemma \<open>fUnitsToFloat64_binary64_exact\<close>); the
    coordinates of path segments and the values handed to the document handle are
    named by the expressions of the source.
  \<^item> A method \<^verbatim>\<open>gc.m(args)\<close> that mutates the context is a function
    \<open>m gc args\<close> that returns the context after the call.
  \<^item> A run-time panic is the left summand of the result, a Go \<^verbatim>\<open>error\<close> value an
    \<open>error option\<close> (\<open>None\<close> for \<^verbatim>\<open>nil\<close>).
\<close>

subsection \<open>Numbers\<close>

type_synonym int32 = "32 word"
type_synonym uint32 = "32 word"
type_synonym float64 = real

text \<open>
  Rounding to binary64, to nearest with ties to even. \<open>pow2 e\<close> is \<open>2 ^ e\<close> for an
  integer \<open>e\<close>; \<open>exponent v\<close> is the \<open>e\<close> with \<open>2 ^ e \<le> |v| < 2 ^ (e + 1)\<close>
  (lemma \<open>exponent_bounds\<close>); a value is rounded to a multiple of the unit in the last
  place of its binade, \<open>2 ^ (e - 52)\<close>, and of \<open>2 ^ - 1074\<close> below the normal range.
  Overflow to an infinity is outside the model. \<open>fadd\<close> and \<open>fsub\<close> are the
  \<^verbatim>\<open>+\<close> and \<^verbatim>\<open>-\<close> of \<^verbatim>\<open>float64\<close>.
\<close>

definition pow2 :: "int \<Rightarrow> real" where
  "pow2 e = (if 0 \<le> e then 2 ^ nat e else 1 / 2 ^ nat (- e))"

definition round_half_even :: "real \<Rightarrow> int" where
  "round_half_even q =
     (let f = \<lfloor>q\<rfloor>; d = q - of_int f
      in if d < 1 / 2 then f else if 1 / 2 < d then f + 1 else if even f then f else f + 1)"

definition exponent :: "real \<Rightarrow> int" where
  "exponent v =
     (if 1 \<le> \<bar>v\<bar> then bitlen \<lfloor>\<bar>v\<bar>\<rfloor> - 1 else - bitlen (\<lceil>1 / \<bar>v\<bar>\<rceil> - 1))"

definition binary64 :: "real \<Rightarrow> float64" where
  "binary64 v =
     (if v = 0 then 0
      else (let e = max (exponent v) (- 1022);
                ulp = pow2 (e - 52)
            in of_int (round_half_even (v / ulp)) * ulp))"

definition fadd :: "float64 \<Rightarrow> float64 \<Rightarrow> float64" where
  "fadd a b = binary64 (a + b)"

definition fsub :: "float64 \<Rightarrow> float64 \<Rightarrow> float64" where
  "fsub a b = binary64 (a - b)"

text \<open>
  Go's integer quotient \<^verbatim>\<open>a / b\<close> truncates towards zero and the remainder
  \<^verbatim>\<open>a % b\<close> takes the sign of the dividend; these are \<open>sdiv\<close> and \<open>smod\<close> on the
  signed readings, with the result wrapped to 32 bits. (A zero divisor panics in Go; the
  only divisor used below is the constant 256.)
\<close>

definition int32_quo :: "int32 \<Rightarrow> int32 \<Rightarrow> int32" where
  "int32_quo a b = word_of_int (sint a sdiv sint b)"

definition int32_rem :: "int32 \<Rightarrow> int32 \<Rightarrow> int32" where
  "int32_rem a b = word_of_int (sint a smod sint b)"

text \<open>The conversions \<^verbatim>\<open>float64(n)\<close> of a signed and of an unsigned 32-bit integer.\<close>

definition float64_of_int32 :: "int32 \<Rightarrow> float64" where
  "float64_of_int32 n = of_int (sint n)"

definition float64_of_uint32 :: "uint32 \<Rightarrow> float64" where
  "float64_of_uint32 n = of_int (uint n)"

text \<open>
  The conversions \<^verbatim>\<open>int(v)\<close> and \<^verbatim>\<open>int32(v)\<close> of a float discard the fraction
  (truncation towards zero). Go leaves the result implementation-dependent when the
  value does not fit; here it wraps.
\<close>

definition int_of_float64 :: "float64 \<Rightarrow> int" where
  "int_of_float64 v = (if 0 \<le> v then \<lfloor>v\<rfloor> else \<lceil>v\<rceil>)"

definition int32_of_float64 :: "float64 \<Rightarrow> int32" where
  "int32_of_float64 v = word_of_int (int_of_float64 v)"

text \<open>\<^verbatim>\<open>func fUnitsToFloat64(x int32) float64\<close>, lines 161 to 164.\<close>

definition fUnitsToFloat64 :: "int32 \<Rightarrow> float64" where
  "fUnitsToFloat64 x =
     (let scaled = push_bit 2 x
      in float64_of_int32 (int32_quo scaled 256)
         + float64_of_int32 (int32_rem scaled 256) / 256.0)"

text \<open>
  A value that binary64 represents exactly as a multiple of \<open>1/256\<close>: an integer
  numerator below \<open>2^53\<close> in magnitude over \<open>2^8\<close>. On such values the float
  operations of the source and the real ones of this model agree.
\<close>

definition binary64_exact_256 :: "float64 \<Rightarrow> bool" where
  "binary64_exact_256 v =
     (v * 256 = of_int \<lfloor>v * 256\<rfloor> \<and> \<bar>v * 256\<bar> < 9007199254740992)"

subsection \<open>Outline points, paths, colours and the font backend\<close>

text \<open>\<^verbatim>\<open>truetype.Point\<close>: a glyph outline point in font units with its flags.\<close>

record Point =
  X :: int32
  Y :: int32
  Flags :: uint32

text \<open>
  Modelled from the spec: \<^verbatim>\<open>draw2d.PathStorage\<close> (package draw2d, not among the
  sources) is an ordered sequence of segments: move-to, line-to,
  quadratic-curve-to (control, end) and close. \<^verbatim>\<open>draw2d.NewPathStorage()\<close> is the
  empty path.
\<close>

datatype PathCmd =
  MoveToCmd float64 float64
| LineToCmd float64 float64
| QuadCurveToCmd float64 float64 float64 float64
| CloseCmd

type_synonym PathStorage = "PathCmd list"

definition NewPathStorage :: PathStorage where
  "NewPathStorage = []"

text \<open>
  \<^verbatim>\<open>color.Color\<close> is an interface with the one method \<^verbatim>\<open>RGBA()\<close>; a colour is
  modelled by the four channel values that the method returns.
\<close>

record Color =
  RGBA_r :: uint32
  RGBA_g :: uint32
  RGBA_b :: uint32
  RGBA_a :: uint32

text \<open>
  Modelled from the spec: the fill rule is nonzero-winding or even-odd
  (\<^verbatim>\<open>draw2d.FillRule\<close>, not among the sources).
\<close>

datatype FillRule = FillRuleEvenOdd | FillRuleWinding

definition UseNonZeroWinding :: "FillRule \<Rightarrow> bool" where
  "UseNonZeroWinding r = (r = FillRuleWinding)"

datatype Cap = RoundCap | ButtCap | SquareCap

datatype Join = BevelJoin | RoundJoin | MiterJoin

text \<open>The tables \<^verbatim>\<open>caps\<close> and \<^verbatim>\<open>joins\<close>, lines 34 to 42.\<close>

fun caps :: "Cap \<Rightarrow> string" where
  "caps RoundCap = ''round''"
| "caps ButtCap = ''butt''"
| "caps SquareCap = ''square''"

fun joins :: "Join \<Rightarrow> string" where
  "joins RoundJoin = ''round''"
| "joins BevelJoin = ''bevel''"
| "joins MiterJoin = ''miter''"

text \<open>
  The font backend (package truetype) is external and taken as a parameter: a font is
  the record of its answers. \<open>Load\<close> stands for \<^verbatim>\<open>GlyphBuf.Load(font, scale, glyph,
  NoHinting)\<close>: it yields the glyph buffer after the call and the error, if any.
\<close>

datatype error = Error string

type_synonym rune = int32
type_synonym Index = "16 word"

record GlyphBuf =
  Point :: "Point list"
  End :: "int list"

record HMetric =
  AdvanceWidth :: int32
  LeftSideBearing :: int32

record Font =
  Index :: "rune \<Rightarrow> Index"
  Kerning :: "int32 \<Rightarrow> Index \<Rightarrow> Index \<Rightarrow> int32"
  HMetric :: "int32 \<Rightarrow> Index \<Rightarrow> HMetric"
  Load :: "int32 \<Rightarrow> Index \<Rightarrow> GlyphBuf \<times> error option"

subsection \<open>The document handle\<close>

text \<open>
  The pdf document (\<^verbatim>\<open>gofpdf.Fpdf\<close>) is external. It is modelled by what the
  context can observe of it: the cached alpha and blend mode that \<^verbatim>\<open>GetAlpha\<close>
  returns, and the sequence of commands issued to it, in order.
\<close>

datatype PdfCmd =
  PdfPathOp PathCmd
| PdfSetAlpha float64 string
| PdfDrawPath string
| PdfSetDrawColor int int int
| PdfSetFillColor int int int
| PdfSetTextColor int int int
| PdfSetLineWidth float64
| PdfSetLineCapStyle string
| PdfSetLineJoinStyle string
| PdfSetDashPattern "float64 list" float64
| PdfSetFont string string float64
| PdfTransformBegin
| PdfTransformEnd

record Fpdf =
  alpha :: float64
  blendMode :: string
  issued :: "PdfCmd list"

definition issue :: "Fpdf \<Rightarrow> PdfCmd \<Rightarrow> Fpdf" where
  "issue p c = p\<lparr>issued := issued p @ [c]\<rparr>"

definition GetAlpha :: "Fpdf \<Rightarrow> float64 \<times> string" where
  "GetAlpha p = (alpha p, blendMode p)"

definition SetAlpha :: "Fpdf \<Rightarrow> float64 \<Rightarrow> string \<Rightarrow> Fpdf" where
  "SetAlpha p a bm = issue (p\<lparr>alpha := a, blendMode := bm\<rparr>) (PdfSetAlpha a bm)"

definition DrawPath :: "Fpdf \<Rightarrow> string \<Rightarrow> Fpdf" where
  "DrawPath p style = issue p (PdfDrawPath style)"

text \<open>
  Modelled from the spec: \<^verbatim>\<open>NewPathConverter(pdf).Convert(paths...)\<close>
  (path_converter.go, not among the sources) converts the path list into the document
  handle's native path, operation by operation and in order.
\<close>

definition Convert :: "Fpdf \<Rightarrow> PathStorage list \<Rightarrow> Fpdf" where
  "Convert p paths = p\<lparr>issued := issued p @ map PdfPathOp (concat paths)\<rparr>"

subsection \<open>The context\<close>

text \<open>
  Modelled from the spec: \<^verbatim>\<open>draw2d.ContextStack\<close> and
  \<^verbatim>\<open>draw2d.StackGraphicContext\<close> (package draw2d, not among the sources). There is
  one current drawing state and a stack of saved snapshots; \<open>Save\<close> pushes a copy of
  the current state and \<open>Restore\<close> pops one (the spec asks for paired calls; a pop of
  the empty stack changes nothing here). The base setters write one field of the
  current state. The transform is left out: nothing modelled here reads it.
  \<open>Font\<close> is a pointer in the source and may be nil, which is \<open>None\<close>.
\<close>

record ContextStack =
  Path :: PathStorage
  LineWidth :: float64
  Dash :: "float64 list"
  DashOffset :: float64
  StrokeColor :: Color
  FillColor :: Color
  FillRule :: FillRule
  Cap :: Cap
  Join :: Join
  FontSize :: float64
  Font :: "Font option"
  Scale :: float64

text \<open>
  \<^verbatim>\<open>type GraphicContext struct\<close>, lines 84 to 89. \<open>Saved\<close> is the stack of the
  embedded base context; \<open>logged\<close> is what \<^verbatim>\<open>log.Println\<close> has written to the
  standard logger, carried with the context.
\<close>

record GraphicContext =
  Current :: ContextStack
  Saved :: "ContextStack list"
  pdf :: Fpdf
  glyphBuf :: GlyphBuf
  DPI :: int
  logged :: "error list"

definition Println :: "GraphicContext \<Rightarrow> error \<Rightarrow> GraphicContext" where
  "Println gc err = gc\<lparr>logged := logged gc @ [err]\<rparr>"

text \<open>
  Modelled from the spec: the drawing operations of the base context append one
  segment to the current path.
\<close>

definition appendToPath :: "GraphicContext \<Rightarrow> PathCmd \<Rightarrow> GraphicContext" where
  "appendToPath gc c = gc\<lparr>Current := (Current gc)\<lparr>Path := Path (Current gc) @ [c]\<rparr>\<rparr>"

definition MoveTo :: "GraphicContext \<Rightarrow> float64 \<Rightarrow> float64 \<Rightarrow> GraphicContext" where
  "MoveTo gc x y = appendToPath gc (MoveToCmd x y)"

definition LineTo :: "GraphicContext \<Rightarrow> float64 \<Rightarrow> float64 \<Rightarrow> GraphicContext" where
  "LineTo gc x y = appendToPath gc (LineToCmd x y)"

definition QuadCurveTo ::
  "GraphicContext \<Rightarrow> float64 \<Rightarrow> float64 \<Rightarrow> float64 \<Rightarrow> float64 \<Rightarrow> GraphicContext" where
  "QuadCurveTo gc cx cy x y = appendToPath gc (QuadCurveToCmd cx cy x y)"

subsection \<open>Tracing a contour\<close>

text \<open>\<^verbatim>\<open>func pointToF64Point(p truetype.Point) (x, y float64)\<close>, lines 169 to 171.\<close>

definition pointToF64Point :: "Point \<Rightarrow> float64 \<times> float64" where
  "pointToF64Point p = (fUnitsToFloat64 (X p), - fUnitsToFloat64 (Y p))"

text \<open>
  \<^verbatim>\<open>func (gc *GraphicContext) drawContour(ps []truetype.Point, dx, dy float64)\<close>,
  lines 174 to 207. \<open>drawContour_body\<close> is one turn of the loop over \<^verbatim>\<open>ps[1:]\<close>,
  on the context and the loop variables \<^verbatim>\<open>q0X, q0Y, on0\<close>.
\<close>

definition drawContour_body ::
  "float64 \<Rightarrow> float64 \<Rightarrow> Point \<Rightarrow> GraphicContext \<times> float64 \<times> float64 \<times> bool
     \<Rightarrow> GraphicContext \<times> float64 \<times> float64 \<times> bool" where
  "drawContour_body dx dy p st =
     (case st of (gc, q0X, q0Y, on0) \<Rightarrow>
        (case pointToF64Point p of (qX, qY) \<Rightarrow>
           (let on = (Flags p AND 1 \<noteq> 0);
                gc' = (if on then
                         (if on0 then LineTo gc (qX + dx) (qY + dy)
                          else QuadCurveTo gc (q0X + dx) (q0Y + dy) (qX + dx) (qY + dy))
                       else
                         (if on0 then gc
                          else (let midX = (q0X + qX) / 2;
                                    midY = (q0Y + qY) / 2
                                in QuadCurveTo gc (q0X + dx) (q0Y + dy) (midX + dx) (midY + dy))))
            in (gc', qX, qY, on))))"

fun drawContour_loop ::
  "float64 \<Rightarrow> float64 \<Rightarrow> Point list \<Rightarrow> GraphicContext \<times> float64 \<times> float64 \<times> bool
     \<Rightarrow> GraphicContext \<times> float64 \<times> float64 \<times> bool" where
  "drawContour_loop dx dy [] st = st"
| "drawContour_loop dx dy (p # ps) st = drawContour_loop dx dy ps (drawContour_body dx dy p st)"

text \<open>The lines after the loop that close the curve back to the start point.\<close>

definition drawContour_close ::
  "float64 \<Rightarrow> float64 \<Rightarrow> float64 \<Rightarrow> float64 \<Rightarrow> GraphicContext \<times> float64 \<times> float64 \<times> bool
     \<Rightarrow> GraphicContext" where
  "drawContour_close dx dy startX startY st =
     (case st of (gc, q0X, q0Y, on0) \<Rightarrow>
        (if on0 then LineTo gc (startX + dx) (startY + dy)
         else QuadCurveTo gc (q0X + dx) (q0Y + dy) (startX + dx) (startY + dy)))"

definition drawContour :: "GraphicContext \<Rightarrow> Point list \<Rightarrow> float64 \<Rightarrow> float64 \<Rightarrow> GraphicContext" where
  "drawContour gc ps dx dy =
     (case ps of
        [] \<Rightarrow> gc
      | p0 # rest \<Rightarrow>
          (case pointToF64Point p0 of (startX, startY) \<Rightarrow>
             drawContour_close dx dy startX startY
               (drawContour_loop dx dy rest (MoveTo gc (startX + dx) (startY + dy), startX, startY, True))))"

subsection \<open>Drawing a glyph\<close>

datatype panic = NilPointerDereference | SliceBoundsOutOfRange

text \<open>
  The slice expression \<^verbatim>\<open>gc.glyphBuf.Point[e0:e1]\<close> panics unless
  \<open>0 \<le> e0 \<le> e1 \<le> cap\<close>; the capacity of the buffer is taken to be its length.
\<close>

definition slice :: "'a list \<Rightarrow> int \<Rightarrow> int \<Rightarrow> panic + 'a list" where
  "slice xs e0 e1 =
     (if 0 \<le> e0 \<and> e0 \<le> e1 \<and> e1 \<le> int (length xs)
      then Inr (take (nat (e1 - e0)) (drop (nat e0) xs))
      else Inl SliceBoundsOutOfRange)"

text \<open>
  \<^verbatim>\<open>func (gc *GraphicContext) drawGlyph(glyph truetype.Index, dx, dy float64) error\<close>,
  lines 209 to 219. \<open>drawGlyph_loop\<close> is the loop over the end offsets of the
  contours, with the loop variable \<^verbatim>\<open>e0\<close>. Reading the glyph through a nil font
  is a nil-pointer dereference.
\<close>

fun drawGlyph_loop ::
  "float64 \<Rightarrow> float64 \<Rightarrow> int list \<Rightarrow> int \<Rightarrow> GraphicContext \<Rightarrow> panic + GraphicContext" where
  "drawGlyph_loop dx dy [] e0 gc = Inr gc"
| "drawGlyph_loop dx dy (e1 # es) e0 gc =
     (case slice (Point (glyphBuf gc)) e0 e1 of
        Inl p \<Rightarrow> Inl p
      | Inr ps \<Rightarrow> drawGlyph_loop dx dy es e1 (drawContour gc ps dx dy))"

definition drawGlyph ::
  "GraphicContext \<Rightarrow> Index \<Rightarrow> float64 \<Rightarrow> float64 \<Rightarrow> panic + GraphicContext \<times> error option" where
  "drawGlyph gc glyph dx dy =
     (case Font (Current gc) of
        None \<Rightarrow> Inl NilPointerDereference
      | Some font \<Rightarrow>
          (case Load font (int32_of_float64 (Scale (Current gc))) glyph of
             (buf, Some err) \<Rightarrow> Inr (gc\<lparr>glyphBuf := buf\<rparr>, Some err)
           | (buf, None) \<Rightarrow>
               (case drawGlyph_loop dx dy (End buf) 0 (gc\<lparr>glyphBuf := buf\<rparr>) of
                  Inl p \<Rightarrow> Inl p
                | Inr gc' \<Rightarrow> Inr (gc', None))))"

subsection \<open>Dispatching a draw\<close>

definition alphaMax :: float64 where
  "alphaMax = 65535"

text \<open>
  \<^verbatim>\<open>func (gc *GraphicContext) draw(style string, alpha uint32, paths ...*draw2d.PathStorage)\<close>,
  lines 314 to 324.
\<close>

definition draw :: "GraphicContext \<Rightarrow> string \<Rightarrow> uint32 \<Rightarrow> PathStorage list \<Rightarrow> GraphicContext" where
  "draw gc style alpha' paths =
     (let paths' = paths @ [Path (Current gc)];
          p1 = Convert (pdf gc) paths';
          a = float64_of_uint32 alpha' / alphaMax
      in (case GetAlpha p1 of (current, blendMode') \<Rightarrow>
            (let p2 = (if a \<noteq> current then SetAlpha p1 a blendMode' else p1)
             in gc\<lparr>pdf := DrawPath p2 style\<rparr>)))"

definition resetPath :: "GraphicContext \<Rightarrow> GraphicContext" where
  "resetPath gc = gc\<lparr>Current := (Current gc)\<lparr>Path := NewPathStorage\<rparr>\<rparr>"

text \<open>\<^verbatim>\<open>func (gc *GraphicContext) Stroke(paths ...*draw2d.PathStorage)\<close>, lines 275 to 279.\<close>

definition Stroke :: "GraphicContext \<Rightarrow> PathStorage list \<Rightarrow> GraphicContext" where
  "Stroke gc paths =
     (let alphaS = RGBA_a (StrokeColor (Current gc))
      in resetPath (draw gc ''D'' alphaS paths))"

text \<open>\<^verbatim>\<open>func (gc *GraphicContext) Fill(paths ...*draw2d.PathStorage)\<close>, lines 282 to 290.\<close>

definition Fill :: "GraphicContext \<Rightarrow> PathStorage list \<Rightarrow> GraphicContext" where
  "Fill gc paths =
     (let style = (if \<not> UseNonZeroWinding (FillRule (Current gc)) then ''F'' @ ''*'' else ''F'');
          alphaF = RGBA_a (FillColor (Current gc))
      in resetPath (draw gc style alphaF paths))"

text \<open>\<^verbatim>\<open>func (gc *GraphicContext) FillStroke(paths ...*draw2d.PathStorage)\<close>, lines 293 to 307.\<close>

definition FillStroke :: "GraphicContext \<Rightarrow> PathStorage list \<Rightarrow> GraphicContext" where
  "FillStroke gc paths =
     (let rule = (if \<not> UseNonZeroWinding (FillRule (Current gc)) then ''*'' else []);
          alphaS = RGBA_a (StrokeColor (Current gc));
          alphaF = RGBA_a (FillColor (Current gc))
      in resetPath
           (if alphaS = alphaF then draw gc (''FD'' @ rule) alphaF paths
            else draw (draw gc (''F'' @ rule) alphaF paths) ''S'' alphaS paths))"

subsection \<open>Laying out a string\<close>

text \<open>\<^verbatim>\<open>func (gc *GraphicContext) loadCurrentFont() (*truetype.Font, error)\<close>, lines 270 to 272.\<close>

definition loadCurrentFont :: "GraphicContext \<Rightarrow> Font option \<times> error option" where
  "loadCurrentFont gc = (Font (Current gc), None)"

text \<open>
  \<^verbatim>\<open>func (gc *GraphicContext) CreateStringPath(s string, x, y float64) (cursor float64)\<close>,
  lines 222 to 244. The string is given as the runes that \<^verbatim>\<open>range s\<close> yields.
  \<open>CreateStringPath_loop\<close> is the loop, on the context and the variables
  \<^verbatim>\<open>x, prev, hasPrev\<close>; its result is what the function returns. The cursor
  \<^verbatim>\<open>x\<close> is advanced by \<^verbatim>\<open>x += ...\<close>, a binary64 addition, and the results
  \<^verbatim>\<open>x - startx\<close> and \<^verbatim>\<open>startx - x\<close> are binary64 subtractions. The call
  \<^verbatim>\<open>font.Index(rune)\<close> on a nil font is a nil-pointer dereference.
\<close>

fun CreateStringPath_loop ::
  "Font option \<Rightarrow> float64 \<Rightarrow> float64 \<Rightarrow> rune list \<Rightarrow> GraphicContext \<Rightarrow> float64 \<Rightarrow> Index \<Rightarrow> bool
     \<Rightarrow> panic + float64 \<times> GraphicContext" where
  "CreateStringPath_loop font' startx y [] gc x prev hasPrev = Inr (fsub x startx, gc)"
| "CreateStringPath_loop font' startx y (rune' # s) gc x prev hasPrev =
     (case font' of
        None \<Rightarrow> Inl NilPointerDereference
      | Some font \<Rightarrow>
          (let index = Index font rune';
               x1 = (if hasPrev
                     then fadd x (fUnitsToFloat64
                                    (Kerning font (int32_of_float64 (Scale (Current gc))) prev index))
                     else x)
           in (case drawGlyph gc index x1 y of
                 Inl p \<Rightarrow> Inl p
               | Inr (gc1, Some err) \<Rightarrow> Inr (fsub startx x1, Println gc1 err)
               | Inr (gc1, None) \<Rightarrow>
                   CreateStringPath_loop font' startx y s gc1
                     (fadd x1 (fUnitsToFloat64
                                 (AdvanceWidth
                                    (HMetric font (int32_of_float64 (Scale (Current gc1))) index))))
                     index True)))"

definition CreateStringPath ::
  "GraphicContext \<Rightarrow> rune list \<Rightarrow> float64 \<Rightarrow> float64 \<Rightarrow> panic + float64 \<times> GraphicContext" where
  "CreateStringPath gc s x y =
     (case loadCurrentFont gc of
        (font', Some err) \<Rightarrow> Inr (0.0, Println gc err)
      | (font', None) \<Rightarrow> CreateStringPath_loop font' x y s gc x 0 False)"

text \<open>\<^verbatim>\<open>FillStringAt\<close> and \<^verbatim>\<open>FillString\<close>, lines 247 to 256.\<close>

definition FillStringAt ::
  "GraphicContext \<Rightarrow> rune list \<Rightarrow> float64 \<Rightarrow> float64 \<Rightarrow> panic + float64 \<times> GraphicContext" where
  "FillStringAt gc text' x y =
     (case CreateStringPath gc text' x y of
        Inl p \<Rightarrow> Inl p
      | Inr (width, gc1) \<Rightarrow> Inr (width, Fill gc1 []))"

definition FillString :: "GraphicContext \<Rightarrow> rune list \<Rightarrow> panic + float64 \<times> GraphicContext" where
  "FillString gc text' = FillStringAt gc text' 0 0"

text \<open>\<^verbatim>\<open>StrokeStringAt\<close> and \<^verbatim>\<open>StrokeString\<close>, lines 260 to 268.\<close>

definition StrokeStringAt ::
  "GraphicContext \<Rightarrow> rune list \<Rightarrow> float64 \<Rightarrow> float64 \<Rightarrow> panic + float64 \<times> GraphicContext" where
  "StrokeStringAt gc text' x y = CreateStringPath gc text' x y"

definition StrokeString :: "GraphicContext \<Rightarrow> rune list \<Rightarrow> panic + float64 \<times> GraphicContext" where
  "StrokeString gc text' = StrokeStringAt gc text' 0 0"

subsection \<open>Setters, save and restore\<close>

definition c255 :: float64 where
  "c255 = 255.0 / 65535.0"

text \<open>\<^verbatim>\<open>func rgb(c color.Color) (int, int, int)\<close>, lines 63 to 66.\<close>

definition rgb :: "Color \<Rightarrow> int \<times> int \<times> int" where
  "rgb c =
     (int_of_float64 (float64_of_uint32 (RGBA_r c) * c255),
      int_of_float64 (float64_of_uint32 (RGBA_g c) * c255),
      int_of_float64 (float64_of_uint32 (RGBA_b c) * c255))"

text \<open>\<^verbatim>\<open>recalc\<close>, \<^verbatim>\<open>SetDPI\<close> and \<^verbatim>\<open>SetFontSize\<close>, lines 127 to 136 and 375 to 378.\<close>

definition recalc :: "GraphicContext \<Rightarrow> GraphicContext" where
  "recalc gc =
     gc\<lparr>Current := (Current gc)
          \<lparr>Scale := FontSize (Current gc) * of_int (DPI gc) * (64.0 / 72.0) / 3.0\<rparr>\<rparr>"

definition SetDPI :: "GraphicContext \<Rightarrow> int \<Rightarrow> GraphicContext" where
  "SetDPI gc dpi = recalc (gc\<lparr>DPI := dpi\<rparr>)"

definition SetFontSize :: "GraphicContext \<Rightarrow> float64 \<Rightarrow> GraphicContext" where
  "SetFontSize gc fontSize = recalc (gc\<lparr>Current := (Current gc)\<lparr>FontSize := fontSize\<rparr>\<rparr>)"

text \<open>
  The setters that the pdf context overrides, lines 329 to 339 and 381 to 402: each
  calls the base setter, which writes the field of the current state, and then the
  document handle.
\<close>

definition SetStrokeColor :: "GraphicContext \<Rightarrow> Color \<Rightarrow> GraphicContext" where
  "SetStrokeColor gc c =
     (let gc1 = gc\<lparr>Current := (Current gc)\<lparr>StrokeColor := c\<rparr>\<rparr>
      in (case rgb c of (r, g, b) \<Rightarrow> gc1\<lparr>pdf := issue (pdf gc1) (PdfSetDrawColor r g b)\<rparr>))"

definition SetFillColor :: "GraphicContext \<Rightarrow> Color \<Rightarrow> GraphicContext" where
  "SetFillColor gc c =
     (let gc1 = gc\<lparr>Current := (Current gc)\<lparr>FillColor := c\<rparr>\<rparr>
      in (case rgb c of (r, g, b) \<Rightarrow>
            gc1\<lparr>pdf := issue (issue (pdf gc1) (PdfSetFillColor r g b)) (PdfSetTextColor r g b)\<rparr>))"

definition SetFont :: "GraphicContext \<Rightarrow> Font option \<Rightarrow> GraphicContext" where
  "SetFont gc font' = gc\<lparr>Current := (Current gc)\<lparr>Font := font'\<rparr>\<rparr>"

definition SetLineDash :: "GraphicContext \<Rightarrow> float64 list \<Rightarrow> float64 \<Rightarrow> GraphicContext" where
  "SetLineDash gc Dash' DashOffset' =
     (let gc1 = gc\<lparr>Current := (Current gc)\<lparr>Dash := Dash', DashOffset := DashOffset'\<rparr>\<rparr>
      in gc1\<lparr>pdf := issue (pdf gc1) (PdfSetDashPattern Dash' DashOffset')\<rparr>)"

definition SetLineWidth :: "GraphicContext \<Rightarrow> float64 \<Rightarrow> GraphicContext" where
  "SetLineWidth gc LineWidth' =
     (let gc1 = gc\<lparr>Current := (Current gc)\<lparr>LineWidth := LineWidth'\<rparr>\<rparr>
      in gc1\<lparr>pdf := issue (pdf gc1) (PdfSetLineWidth LineWidth')\<rparr>)"

definition SetLineCap :: "GraphicContext \<Rightarrow> Cap \<Rightarrow> GraphicContext" where
  "SetLineCap gc Cap' =
     (let gc1 = gc\<lparr>Current := (Current gc)\<lparr>Cap := Cap'\<rparr>\<rparr>
      in gc1\<lparr>pdf := issue (pdf gc1) (PdfSetLineCapStyle (caps Cap'))\<rparr>)"

definition SetLineJoin :: "GraphicContext \<Rightarrow> Join \<Rightarrow> GraphicContext" where
  "SetLineJoin gc Join' =
     (let gc1 = gc\<lparr>Current := (Current gc)\<lparr>Join := Join'\<rparr>\<rparr>
      in gc1\<lparr>pdf := issue (pdf gc1) (PdfSetLineJoinStyle (joins Join'))\<rparr>)"

text \<open>
  Modelled from the spec: \<^verbatim>\<open>SetFillRule\<close> is not overridden in gc.go; it is the
  setter of the base context (package draw2d, not among the sources), which holds no
  reference to the pdf document and writes the field of the current state.
\<close>

definition SetFillRule :: "GraphicContext \<Rightarrow> FillRule \<Rightarrow> GraphicContext" where
  "SetFillRule gc f = gc\<lparr>Current := (Current gc)\<lparr>FillRule := f\<rparr>\<rparr>"

text \<open>
  Modelled from the spec: \<^verbatim>\<open>StackGraphicContext.Save\<close> pushes a copy of the current
  state; \<^verbatim>\<open>StackGraphicContext.Restore\<close> pops the state stack.
\<close>

definition StackGraphicContext_Save :: "GraphicContext \<Rightarrow> GraphicContext" where
  "StackGraphicContext_Save gc = gc\<lparr>Saved := Current gc # Saved gc\<rparr>"

definition StackGraphicContext_Restore :: "GraphicContext \<Rightarrow> GraphicContext" where
  "StackGraphicContext_Restore gc =
     (case Saved gc of
        [] \<Rightarrow> gc
      | c # cs \<Rightarrow> gc\<lparr>Current := c, Saved := cs\<rparr>)"

text \<open>\<^verbatim>\<open>func (gc *GraphicContext) Save()\<close>, lines 436 to 439.\<close>

definition Save :: "GraphicContext \<Rightarrow> GraphicContext" where
  "Save gc =
     (let gc1 = StackGraphicContext_Save gc
      in gc1\<lparr>pdf := issue (pdf gc1) PdfTransformBegin\<rparr>)"

text \<open>
  \<^verbatim>\<open>func (gc *GraphicContext) Restore()\<close>, lines 443 to 458. The calls of
  \<^verbatim>\<open>SetFontData\<close> and \<^verbatim>\<open>SetLineDash\<close> are commented out in the source.
\<close>

definition Restore :: "GraphicContext \<Rightarrow> GraphicContext" where
  "Restore gc =
     (let gc1 = gc\<lparr>pdf := issue (pdf gc) PdfTransformEnd\<rparr>;
          gc2 = StackGraphicContext_Restore gc1;
          c = Current gc2;
          gc3 = SetFontSize gc2 (FontSize c);
          gc4 = SetLineWidth gc3 (LineWidth c);
          gc5 = SetStrokeColor gc4 (StrokeColor c);
          gc6 = SetFillColor gc5 (FillColor c);
          gc7 = SetFillRule gc6 (FillRule c);
          gc8 = SetLineCap gc7 (Cap c)
      in SetLineJoin gc8 (Join c))"

subsection \<open>Notions used in the statements\<close>

text \<open>
  \<open>emit gc cs\<close> is the context after the segments \<open>cs\<close> have been appended, one
  by one, to the current path. \<open>extends\<close> and \<open>traces\<close> relate a context to a later
  one that differs from it by appended segments only, respectively by appended segments
  and the contents of the glyph buffer.
\<close>

definition emit :: "GraphicContext \<Rightarrow> PathCmd list \<Rightarrow> GraphicContext" where
  "emit gc cs = foldl appendToPath gc cs"

definition extends :: "GraphicContext \<Rightarrow> GraphicContext \<Rightarrow> bool" where
  "extends gc gc' = (\<exists>cs. gc' = emit gc cs)"

definition traces :: "GraphicContext \<Rightarrow> GraphicContext \<Rightarrow> bool" where
  "traces gc gc' = (\<exists>buf cs. gc' = emit (gc\<lparr>glyphBuf := buf\<rparr>) cs)"

definition lineTo_of :: "float64 \<Rightarrow> float64 \<Rightarrow> Point \<Rightarrow> PathCmd" where
  "lineTo_of dx dy p = (case pointToF64Point p of (x, y) \<Rightarrow> LineToCmd (x + dx) (y + dy))"

text \<open>
  A glyph loads when \<^verbatim>\<open>GlyphBuf.Load\<close> returns no error and the end offsets it
  leaves delimit contours inside the point list (they increase from 0 and stay within
  its length), so that no slice expression of \<open>drawGlyph\<close> panics.
\<close>

fun ends_ok :: "int list \<Rightarrow> int \<Rightarrow> nat \<Rightarrow> bool" where
  "ends_ok [] e0 n = True"
| "ends_ok (e1 # es) e0 n = (0 \<le> e0 \<and> e0 \<le> e1 \<and> e1 \<le> int n \<and> ends_ok es e1 n)"

definition glyph_loads :: "Font \<Rightarrow> int32 \<Rightarrow> Index \<Rightarrow> bool" where
  "glyph_loads font scale i =
     (case Load font scale i of
        (buf, None) \<Rightarrow> ends_ok (End buf) 0 (length (Point buf))
      | (buf, Some err) \<Rightarrow> False)"

text \<open>
  The converted advance width of a glyph and the converted kerning of a glyph pair, and
  the width of a run of glyphs laid out after the glyph \<open>prev\<close> (if \<open>hasPrev\<close>): the
  advances of all its glyphs plus the kernings of all consecutive pairs.
\<close>

definition advance :: "Font \<Rightarrow> int32 \<Rightarrow> Index \<Rightarrow> float64" where
  "advance font scale i = fUnitsToFloat64 (AdvanceWidth (HMetric font scale i))"

definition kerning :: "Font \<Rightarrow> int32 \<Rightarrow> Index \<Rightarrow> Index \<Rightarrow> float64" where
  "kerning font scale i0 i1 = fUnitsToFloat64 (Kerning font scale i0 i1)"

definition run_width :: "Font \<Rightarrow> int32 \<Rightarrow> Index \<Rightarrow> bool \<Rightarrow> Index list \<Rightarrow> float64" where
  "run_width font scale prev hasPrev is =
     sum_list (map (advance font scale) is)
     + sum_list (map2 (kerning font scale) (if hasPrev then prev # is else is)
                                           (if hasPrev then is else tl is))"

text \<open>
  The cursor after a run of glyphs that load, as the loop of \<open>CreateStringPath\<close>
  advances it from \<open>x\<close>: one binary64 addition for the kerning from the glyph before
  (if there is one) and one for the advance, per glyph.
\<close>

fun run_cursor :: "Font \<Rightarrow> int32 \<Rightarrow> float64 \<Rightarrow> Index \<Rightarrow> bool \<Rightarrow> Index list \<Rightarrow> float64" where
  "run_cursor font scale x prev hasPrev [] = x"
| "run_cursor font scale x prev hasPrev (i # is) =
     run_cursor font scale
       (fadd (if hasPrev then fadd x (kerning font scale prev i) else x) (advance font scale i))
       i True is"

text \<open>
  Two readings of a sequence of commands issued to the document handle: the draw
  commands in it, each with the alpha in force when it is issued (for a handle whose
  alpha is \<open>a\<close> before the first command), and the path operations in it.
\<close>

fun drawn :: "float64 \<Rightarrow> PdfCmd list \<Rightarrow> (string \<times> float64) list" where
  "drawn a [] = []"
| "drawn a (PdfSetAlpha a' bm # cs) = drawn a' cs"
| "drawn a (PdfDrawPath style # cs) = (style, a) # drawn a cs"
| "drawn a (c # cs) = drawn a cs"

fun pathOps :: "PdfCmd list \<Rightarrow> PathCmd list" where
  "pathOps [] = []"
| "pathOps (PdfPathOp c # cs) = c # pathOps cs"
| "pathOps (c # cs) = pathOps cs"

text \<open>
  The path operations issued to the document handle between a context \<open>gc\<close> and
  a later context \<open>gc'\<close>.
\<close>

definition consumed :: "GraphicContext \<Rightarrow> GraphicContext \<Rightarrow> PathCmd list" where
  "consumed gc gc' = pathOps (drop (length (issued (pdf gc))) (issued (pdf gc')))"

subsection \<open>Sample values\<close>

text \<open>
  A font with three glyphs and a context (font size 10 at 72 DPI, hence the scale
  \<open>640 / 3\<close> that \<open>recalc\<close> computes), for the concrete instances below. Glyph 1 (rune 65) is a triangle of on-curve points with
  advance 10; glyph 2 (rune 66) has two consecutive off-curve points and advance 8; the
  kerning from glyph 1 to glyph 2 is 2; glyph 3 (rune 67) has no outline and fails to
  load. Advances and kernings are given in font units, 64 to the pixel.
\<close>

definition pt :: "int \<Rightarrow> int \<Rightarrow> bool \<Rightarrow> Point" where
  "pt x y on = \<lparr>X = word_of_int x, Y = word_of_int y, Flags = (if on then 1 else 0)\<rparr>"

definition sample_font :: Font where
  "sample_font =
     \<lparr>Index = (\<lambda>r. if r = 65 then 1 else if r = 66 then 2 else if r = 67 then 3 else 0),
      Kerning = (\<lambda>scale i0 i1. if i0 = 1 \<and> i1 = 2 then 128 else 0),
      HMetric = (\<lambda>scale i. \<lparr>AdvanceWidth = (if i = 1 then 640 else 512), LeftSideBearing = 0\<rparr>),
      Load = (\<lambda>scale i.
        if i = 1 then (\<lparr>Point = [pt 0 0 True, pt 640 0 True, pt 0 640 True], End = [3]\<rparr>, None)
        else if i = 2 then
          (\<lparr>Point = [pt 0 0 True, pt 64 0 False, pt 64 64 False, pt 0 64 True], End = [4]\<rparr>, None)
        else (\<lparr>Point = [], End = []\<rparr>, Some (Error ''no outline'')))\<rparr>"

definition sample_gc :: GraphicContext where
  "sample_gc =
     \<lparr>Current =
        \<lparr>Path = [], LineWidth = 1, Dash = [], DashOffset = 0,
         StrokeColor = \<lparr>RGBA_r = 0, RGBA_g = 0, RGBA_b = 0, RGBA_a = 65535\<rparr>,
         FillColor = \<lparr>RGBA_r = 65535, RGBA_g = 65535, RGBA_b = 65535, RGBA_a = 65535\<rparr>,
         FillRule = FillRuleEvenOdd, Cap = RoundCap, Join = RoundJoin,
         FontSize = 10, Font = Some sample_font, Scale = 640 / 3\<rparr>,
      Saved = [],
      pdf = \<lparr>alpha = 1, blendMode = ''Normal'', issued = []\<rparr>,
      glyphBuf = \<lparr>Point = [], End = []\<rparr>,
      DPI = 72,
      logged = []\<rparr>"

section \<open>Properties\<close>

subsection \<open>Font units\<close>

lemma sint32_range: "- 2147483648 \<le> sint (w :: int32) \<and> sint w < 2147483648"
  using sint_ge [of w] sint_lt [of w] by simp

lemma sdiv_256_bounds:
  fixes k :: int
  assumes "- 2147483648 \<le> k" "k < 2147483648"
  shows "- 8388608 \<le> k sdiv 256 \<and> k sdiv 256 \<le> 8388608"
proof (cases "0 \<le> k")
  case True
  then have q: "k sdiv 256 = k div 256"
    by (simp add: signed_divide_int_def sgn_if)
  have "k = 256 * (k div 256) + k mod 256" by simp
  moreover have "0 \<le> k mod 256" "k mod 256 < 256" by simp_all
  ultimately have "0 \<le> k div 256 \<and> k div 256 \<le> 8388608"
    using assms True by linarith
  with q show ?thesis by simp
next
  case False
  then have q: "k sdiv 256 = - ((- k) div 256)"
    by (simp add: signed_divide_int_def sgn_if)
  have "- k = 256 * ((- k) div 256) + (- k) mod 256" by simp
  moreover have "0 \<le> (- k) mod 256" "(- k) mod 256 < 256" by simp_all
  ultimately have "0 \<le> (- k) div 256 \<and> (- k) div 256 \<le> 8388608"
    using assms False by linarith
  with q show ?thesis by simp
qed

lemma smod_256_bounds:
  fixes k :: int
  shows "- 256 < k smod 256 \<and> k smod 256 < 256"
proof (cases "0 \<le> k")
  case True
  then have "k smod 256 = k mod 256"
    by (simp add: signed_modulo_int_def sgn_if)
  then show ?thesis by simp
next
  case False
  then have "k smod 256 = - ((- k) mod 256)"
    by (simp add: signed_modulo_int_def sgn_if)
  then show ?thesis by simp
qed

lemma sint_word_of_int_small:
  "- 2147483648 \<le> k \<Longrightarrow> k < 2147483648 \<Longrightarrow> sint (word_of_int k :: int32) = k"
  by (simp add: sint_sbintrunc' signed_take_bit_int_eq_self)

text \<open>Neither the quotient nor the remainder by 256 wraps.\<close>

lemma sint_int32_quo_256: "sint (int32_quo w 256) = sint w sdiv 256"
proof -
  have "- 8388608 \<le> sint w sdiv 256 \<and> sint w sdiv 256 \<le> 8388608"
    using sint32_range [of w] by (intro sdiv_256_bounds) simp_all
  then show ?thesis
    by (simp add: int32_quo_def sint_word_of_int_small)
qed

lemma sint_int32_rem_256: "sint (int32_rem w 256) = sint w smod 256"
proof -
  have "- 256 < sint w smod 256 \<and> sint w smod 256 < 256"
    by (rule smod_256_bounds)
  then show ?thesis
    by (simp add: int32_rem_def sint_word_of_int_small)
qed

lemma fUnitsToFloat64_decomp:
  "fUnitsToFloat64 x =
     of_int (sint (push_bit 2 x :: int32) sdiv 256)
     + of_int (sint (push_bit 2 x :: int32) smod 256) / 256"
  by (simp add: fUnitsToFloat64_def Let_def float64_of_int32_def
      sint_int32_quo_256 sint_int32_rem_256)

lemma fUnitsToFloat64_wrapped:
  "fUnitsToFloat64 x = of_int (sint (push_bit 2 x :: int32)) / 256"
proof -
  let ?w = "sint (push_bit 2 x :: int32)"
  have "?w sdiv 256 * 256 + ?w smod 256 = ?w"
    by (rule sdiv_mult_smod_eq)
  then have "(of_int (?w sdiv 256 * 256 + ?w smod 256) :: real) = of_int ?w"
    by simp
  then have "(of_int (?w sdiv 256) :: real) * 256 + of_int (?w smod 256) = of_int ?w"
    by simp
  then show ?thesis
    unfolding fUnitsToFloat64_decomp by (simp add: field_simps)
qed

lemma sint_push_bit_2:
  assumes "- 536870912 \<le> sint (x :: int32)" "sint x < 536870912"
  shows "sint (push_bit 2 x :: int32) = 4 * sint x"
proof -
  have "push_bit 2 x = (word_of_int (4 * sint x) :: int32)"
    by (simp add: push_bit_eq_mult mult.commute)
  moreover have "sint (word_of_int (4 * sint x) :: int32) = 4 * sint x"
    using assms by (intro sint_word_of_int_small) simp_all
  ultimately show ?thesis by simp
qed

text \<open>
  Every value that \<open>fUnitsToFloat64\<close> meets is held exactly by binary64: the two
  converted integers, the quotient by \<open>256.0\<close> and the sum. So the float operations
  of the source round nothing here and the real-valued model is exact.
\<close>

lemma binary64_exact_256_of_int:
  "\<bar>n\<bar> \<le> 2147483648 \<Longrightarrow> binary64_exact_256 (of_int n)"
proof -
  assume "\<bar>n\<bar> \<le> 2147483648"
  then have "\<bar>n * 256\<bar> < 9007199254740992" by linarith
  then have "\<bar>(of_int (n * 256) :: real)\<bar> < 9007199254740992"
    by (metis of_int_abs of_int_less_numeral_iff)
  moreover have "(of_int n :: real) * 256 = of_int (n * 256)" by simp
  ultimately show ?thesis
    unfolding binary64_exact_256_def by (metis floor_of_int)
qed

lemma binary64_exact_256_of_int_div:
  "\<bar>n\<bar> \<le> 2147483648 \<Longrightarrow> binary64_exact_256 (of_int n / 256)"
proof -
  assume "\<bar>n\<bar> \<le> 2147483648"
  then have "\<bar>n\<bar> < 9007199254740992" by linarith
  then have "\<bar>(of_int n :: real)\<bar> < 9007199254740992"
    by (metis of_int_abs of_int_less_numeral_iff)
  then show ?thesis
    unfolding binary64_exact_256_def by simp
qed

lemma binary64_exact_256_sint:
  fixes w :: int32
  shows "binary64_exact_256 (of_int (sint w))"
    and "binary64_exact_256 (of_int (sint w) / 256)"
proof -
  have r: "\<bar>sint w\<bar> \<le> 2147483648"
    using sint32_range [of w] by linarith
  show "binary64_exact_256 (of_int (sint w))"
    using r by (rule binary64_exact_256_of_int)
  show "binary64_exact_256 (of_int (sint w) / 256)"
    using r by (rule binary64_exact_256_of_int_div)
qed

lemma fUnitsToFloat64_binary64_exact:
  "binary64_exact_256 (float64_of_int32 (int32_quo (push_bit 2 x) 256))
   \<and> binary64_exact_256 (float64_of_int32 (int32_rem (push_bit 2 x) 256))
   \<and> binary64_exact_256 (float64_of_int32 (int32_rem (push_bit 2 x) 256) / 256.0)
   \<and> binary64_exact_256 (fUnitsToFloat64 x)"
proof -
  have d: "(256.0 :: real) = 256" by simp
  show ?thesis
    unfolding float64_of_int32_def fUnitsToFloat64_wrapped d
    by (intro conjI binary64_exact_256_sint)
qed

text \<open>
  C1 (as amended). For every \<^verbatim>\<open>int32\<close> input \<open>x\<close> the result is \<open>w / 256\<close>, where
  \<open>w\<close> is the 32-bit value that the shift \<^verbatim>\<open>x << 2\<close> leaves, and it is computed as
  the quotient of \<open>w\<close> by 256 truncated towards zero plus the remainder, whose sign
  follows \<open>w\<close>, over 256. When \<open>x * 4\<close> fits in 32 bits, that is for
  \<open>-2^29 \<le> x < 2^29\<close>, negative or not, \<open>w\<close> is \<open>x * 4\<close> and the result is exactly
  the rational \<open>x * 4 / 256\<close>.
\<close>

theorem fUnitsToFloat64_value:
  fixes x :: int32
  defines "w \<equiv> sint (push_bit 2 x :: int32)"
  shows "fUnitsToFloat64 x = of_int w / 256
    \<and> fUnitsToFloat64 x
        = of_int (sgn w * (\<bar>w\<bar> div 256)) + of_int (sgn w * (\<bar>w\<bar> mod 256)) / 256
    \<and> (- 536870912 \<le> sint x \<and> sint x < 536870912 \<longrightarrow>
         w = sint x * 4 \<and> fUnitsToFloat64 x = of_int (sint x) * 4 / 256)"
proof -
  have "sgn w * (\<bar>w\<bar> div 256) = w sdiv 256"
    by (simp add: signed_divide_int_def)
  moreover have "sgn w * (\<bar>w\<bar> mod 256) = w smod 256"
    by (simp add: signed_modulo_int_def)
  ultimately have "fUnitsToFloat64 x
        = of_int (sgn w * (\<bar>w\<bar> div 256)) + of_int (sgn w * (\<bar>w\<bar> mod 256)) / 256"
    unfolding w_def using fUnitsToFloat64_decomp [of x] by simp
  moreover have "fUnitsToFloat64 x = of_int w / 256"
    unfolding w_def by (rule fUnitsToFloat64_wrapped)
  moreover have "w = sint x * 4 \<and> fUnitsToFloat64 x = of_int (sint x) * 4 / 256"
    if "- 536870912 \<le> sint x \<and> sint x < 536870912"
    using that unfolding w_def by (simp add: fUnitsToFloat64_wrapped sint_push_bit_2)
  ultimately show ?thesis by blast
qed

theorem fUnitsToFloat64_value_witness:
  "- 536870912 \<le> sint (- 65 :: int32) \<and> sint (- 65 :: int32) < 536870912
   \<and> fUnitsToFloat64 (- 65) = - 65 * 4 / 256
   \<and> fUnitsToFloat64 (- 65) = - 1 + - 4 / 256"
  using fUnitsToFloat64_value [of "- 65"] by simp

theorem fUnitsToFloat64_overflow_counterexample:
  "0 \<le> sint (536870912 :: int32)
   \<and> fUnitsToFloat64 536870912 = - 8388608
   \<and> fUnitsToFloat64 536870912 \<noteq> of_int (sint (536870912 :: int32)) * 4 / 256"
  by (simp add: fUnitsToFloat64_def int32_quo_def int32_rem_def float64_of_int32_def
      signed_divide_int_def signed_modulo_int_def)

subsection \<open>Rounding to binary64\<close>

lemma pow2_pos: "0 < pow2 e"
  by (simp add: pow2_def)

lemma pow2_nat: "0 \<le> e \<Longrightarrow> pow2 e = 2 ^ nat e"
  by (simp add: pow2_def)

lemma pow2_neg: "e \<le> 0 \<Longrightarrow> pow2 e = 1 / 2 ^ nat (- e)"
  by (simp add: pow2_def)

lemma pow2_add: "pow2 (a + b) = pow2 a * pow2 b"
proof -
  have "pow2 e = 2 powi e" for e
    by (simp add: pow2_def power_int_def field_simps)
  then show ?thesis by (simp add: power_int_add)
qed

lemma pow2_mono: "a \<le> b \<Longrightarrow> pow2 a \<le> pow2 b"
proof -
  assume "a \<le> b"
  then have "pow2 (b - a) = 2 ^ nat (b - a)" by (simp add: pow2_nat)
  then have "1 \<le> pow2 (b - a)" by simp
  moreover have "pow2 b = pow2 a * pow2 (b - a)"
    using pow2_add [of a "b - a"] by simp
  ultimately show ?thesis
    using pow2_pos [of a] by simp
qed

lemma pow2_less_imp: "pow2 a < pow2 b \<Longrightarrow> a < b"
  using pow2_mono [of b a] by (cases "a < b") simp_all

lemma round_half_even_of_int: "round_half_even (of_int m) = m"
  by (simp add: round_half_even_def)

lemma round_half_even_neg:
  assumes "q \<le> - 1"
  shows "round_half_even q \<le> - 1"
proof -
  let ?f = "\<lfloor>q\<rfloor>"
  have f: "?f \<le> - 1" using assms by (simp add: floor_le_iff)
  show ?thesis
  proof (cases "q - of_int ?f < 1 / 2")
    case True
    then show ?thesis using f by (simp add: round_half_even_def)
  next
    case False
    then have "of_int ?f + 1 / 2 \<le> q" by simp
    with assms have "(of_int ?f :: real) \<le> - 3 / 2" by simp
    then have "(of_int ?f :: real) < - 1" by simp
    then have "?f < - 1" by linarith
    then have "?f + 1 \<le> - 1" by simp
    with f show ?thesis by (simp add: round_half_even_def Let_def)
  qed
qed

text \<open>The exponent brackets the magnitude: \<open>2 ^ e \<le> |v| < 2 ^ (e + 1)\<close>.\<close>

lemma pow2_exponent_le:
  assumes "v \<noteq> 0"
  shows "pow2 (exponent v) \<le> \<bar>v\<bar>"
proof (cases "1 \<le> \<bar>v\<bar>")
  case True
  let ?n = "\<lfloor>\<bar>v\<bar>\<rfloor>"
  from True have n: "0 < ?n" by simp
  from bitlen_bounds [OF n] have "2 ^ nat (bitlen ?n - 1) \<le> ?n" ..
  then have "(2::real) ^ nat (bitlen ?n - 1) \<le> of_int ?n"
    by (metis of_int_le_iff of_int_numeral of_int_power)
  also have "\<dots> \<le> \<bar>v\<bar>" by simp
  finally have "(2::real) ^ nat (bitlen ?n - 1) \<le> \<bar>v\<bar>" .
  moreover have "0 \<le> bitlen ?n - 1"
    using n by (simp add: bitlen_alt_def)
  ultimately show ?thesis
    using True by (simp add: exponent_def pow2_nat)
next
  case False
  let ?u = "1 / \<bar>v\<bar>"
  let ?n = "\<lceil>?u\<rceil> - 1"
  from False assms have u: "1 < ?u" by simp
  then have n: "0 < ?n" by simp
  from bitlen_bounds [OF n] have "?n < 2 ^ nat (bitlen ?n)" ..
  then have "\<lceil>?u\<rceil> \<le> 2 ^ nat (bitlen ?n)" by simp
  then have "?u \<le> of_int (2 ^ nat (bitlen ?n))"
    by (simp only: ceiling_le_iff)
  then have "?u \<le> 2 ^ nat (bitlen ?n)" by simp
  then have "1 / 2 ^ nat (bitlen ?n) \<le> \<bar>v\<bar>"
    using assms by (simp add: field_simps)
  moreover have "0 \<le> bitlen ?n" by (rule bitlen_nonneg)
  ultimately show ?thesis
    using False by (simp add: exponent_def pow2_neg)
qed

lemma less_pow2_exponent:
  assumes "v \<noteq> 0"
  shows "\<bar>v\<bar> < pow2 (exponent v + 1)"
proof (cases "1 \<le> \<bar>v\<bar>")
  case True
  let ?n = "\<lfloor>\<bar>v\<bar>\<rfloor>"
  from True have n: "0 < ?n" by simp
  from bitlen_bounds [OF n] have "?n < 2 ^ nat (bitlen ?n)" ..
  then have "?n + 1 \<le> 2 ^ nat (bitlen ?n)" by simp
  then have "(of_int (?n + 1) :: real) \<le> of_int (2 ^ nat (bitlen ?n))"
    by (simp only: of_int_le_iff)
  then have "(of_int ?n :: real) + 1 \<le> 2 ^ nat (bitlen ?n)" by simp
  moreover have "\<bar>v\<bar> < of_int ?n + 1" by linarith
  ultimately have "\<bar>v\<bar> < 2 ^ nat (bitlen ?n)" by linarith
  moreover have "0 \<le> bitlen ?n" by (rule bitlen_nonneg)
  ultimately show ?thesis
    using True by (simp add: exponent_def pow2_nat)
next
  case False
  let ?u = "1 / \<bar>v\<bar>"
  let ?n = "\<lceil>?u\<rceil> - 1"
  from False assms have u: "1 < ?u" by simp
  then have n: "0 < ?n" by simp
  have k: "1 \<le> bitlen ?n" using n by (simp add: bitlen_alt_def)
  from bitlen_bounds [OF n] have "2 ^ nat (bitlen ?n - 1) \<le> ?n" ..
  then have "(of_int (2 ^ nat (bitlen ?n - 1)) :: real) \<le> of_int ?n"
    by (simp only: of_int_le_iff)
  moreover have "of_int ?n < ?u" by linarith
  ultimately have "2 ^ nat (bitlen ?n - 1) < ?u" by simp
  then have "\<bar>v\<bar> < 1 / 2 ^ nat (bitlen ?n - 1)"
    using assms by (simp add: field_simps)
  moreover have "pow2 (- bitlen ?n + 1) = 1 / 2 ^ nat (bitlen ?n - 1)"
    using k by (simp add: pow2_neg)
  ultimately show ?thesis
    using False by (simp add: exponent_def)
qed

lemma exponent_bounds:
  "v \<noteq> 0 \<Longrightarrow> pow2 (exponent v) \<le> \<bar>v\<bar> \<and> \<bar>v\<bar> < pow2 (exponent v + 1)"
  by (simp add: pow2_exponent_le less_pow2_exponent)

lemma binary64_0: "binary64 0 = 0"
  by (simp add: binary64_def)

lemma binary64_unfold:
  "v \<noteq> 0 \<Longrightarrow> e = max (exponent v) (- 1022) \<Longrightarrow>
   binary64 v = of_int (round_half_even (v / pow2 (e - 52))) * pow2 (e - 52)"
  by (simp add: binary64_def Let_def)

text \<open>Every rounded value is an integer multiple of \<open>2 ^ - 1074\<close>.\<close>

lemma binary64_grid: "\<exists>m :: int. binary64 v = of_int m * pow2 (- 1074)"
proof (cases "v = 0")
  case True
  then have "binary64 v = of_int 0 * pow2 (- 1074)" by (simp add: binary64_0)
  then show ?thesis by blast
next
  case False
  define e where "e = max (exponent v) (- 1022)"
  define r where "r = round_half_even (v / pow2 (e - 52))"
  have e: "0 \<le> e + 1022" by (simp add: e_def)
  have "pow2 (e - 52) = pow2 (e + 1022) * pow2 (- 1074)"
    using pow2_add [of "e + 1022" "- 1074"] by simp
  also have "\<dots> = of_int (2 ^ nat (e + 1022)) * pow2 (- 1074)"
    using e by (simp add: pow2_nat)
  finally have p: "pow2 (e - 52) = of_int (2 ^ nat (e + 1022)) * pow2 (- 1074)" .
  have "binary64 v = of_int r * pow2 (e - 52)"
    unfolding r_def by (rule binary64_unfold [OF False e_def])
  also have "\<dots> = of_int r * (of_int (2 ^ nat (e + 1022)) * pow2 (- 1074))"
    by (simp only: p)
  also have "\<dots> = of_int (r * 2 ^ nat (e + 1022)) * pow2 (- 1074)"
    by (simp only: of_int_mult mult.assoc)
  finally show ?thesis by blast
qed

text \<open>A negative multiple of \<open>2 ^ - 1074\<close> is rounded to a negative value.\<close>

lemma binary64_negative:
  assumes "v = of_int m * pow2 (- 1074)" and "v < 0"
  shows "binary64 v < 0"
proof -
  define e where "e = max (exponent v) (- 1022)"
  define ulp where "ulp = pow2 (e - 52)"
  define g where "g = pow2 (- 1074)"
  have ulp: "0 < ulp" by (simp add: ulp_def pow2_pos)
  have g: "0 < g" by (simp add: g_def pow2_pos)
  from assms(2) have v0: "v \<noteq> 0" by simp
  have v: "v = of_int m * g" by (simp add: assms(1) g_def)
  have "m < 0"
    using assms(2) g unfolding v by (simp add: mult_less_0_iff)
  then have "(of_int m :: real) \<le> - 1" by linarith
  then have "of_int m * g \<le> - 1 * g"
    using g by (intro mult_right_mono) simp_all
  then have grid: "g \<le> \<bar>v\<bar>"
    unfolding v by simp
  have "ulp \<le> \<bar>v\<bar>"
  proof (cases "exponent v \<le> - 1022")
    case True
    then have "e = - 1022" by (simp add: e_def)
    then have "ulp = g" by (simp add: ulp_def g_def)
    then show ?thesis using grid by simp
  next
    case False
    then have "e = exponent v" by (simp add: e_def)
    then have "pow2 e \<le> \<bar>v\<bar>" using pow2_exponent_le [OF v0] by simp
    moreover have "ulp \<le> pow2 e"
      unfolding ulp_def by (rule pow2_mono) simp
    ultimately show ?thesis by simp
  qed
  then have "v / ulp \<le> - 1"
    using \<open>v < 0\<close> ulp by (simp add: field_simps)
  then have "round_half_even (v / ulp) \<le> - 1" by (rule round_half_even_neg)
  then have "(of_int (round_half_even (v / ulp)) :: real) \<le> - 1" by linarith
  then have "of_int (round_half_even (v / ulp)) * ulp < 0"
    using ulp by (simp add: mult_less_0_iff)
  then show ?thesis
    unfolding binary64_unfold [OF v0 e_def] ulp_def .
qed

text \<open>
  The difference of two binary64 values is negative when the first is the smaller: it
  cannot round to zero.
\<close>

lemma fsub_negative:
  assumes "binary64 a = a" and "a < binary64 c"
  shows "fsub a (binary64 c) < 0"
proof -
  obtain m where m: "a = of_int m * pow2 (- 1074)"
    using binary64_grid [of a] assms(1) by auto
  obtain n where n: "binary64 c = of_int n * pow2 (- 1074)"
    using binary64_grid [of c] by auto
  have "of_int (m - n) * pow2 (- 1074) = of_int m * pow2 (- 1074) - of_int n * pow2 (- 1074)"
    by (simp only: of_int_diff left_diff_distrib)
  then have d: "a - binary64 c = of_int (m - n) * pow2 (- 1074)"
    using m n by simp
  have "a - binary64 c < 0" using assms(2) by simp
  then show ?thesis
    unfolding fsub_def by (rule binary64_negative [OF d])
qed

text \<open>
  Multiples of \<open>1 / 256\<close> below \<open>2 ^ 45\<close> in magnitude are binary64 values: an
  addition or subtraction with such a result rounds nothing.
\<close>

lemma binary64_exact:
  assumes "v * 256 \<in> \<int>" and "\<bar>v\<bar> < 35184372088832"
  shows "binary64 v = v"
proof (cases "v = 0")
  case True
  then show ?thesis by (simp add: binary64_0)
next
  case False
  define e where "e = max (exponent v) (- 1022)"
  from assms(1) obtain m :: int where m: "v * 256 = of_int m" by (auto elim: Ints_cases)
  have "pow2 (exponent v) \<le> \<bar>v\<bar>" by (rule pow2_exponent_le [OF False])
  also have "\<bar>v\<bar> < pow2 45" using assms(2) by (simp add: pow2_def)
  finally have "exponent v < 45" by (rule pow2_less_imp)
  then have e: "0 \<le> 44 - e" by (simp add: e_def)
  have "pow2 (44 - e) * pow2 (e - 52) = pow2 (- 8)"
    using pow2_add [of "44 - e" "e - 52"] by simp
  also have "\<dots> = 1 / 256" by (simp add: pow2_def)
  finally have p: "pow2 (44 - e) * pow2 (e - 52) = 1 / 256" .
  have u: "0 < pow2 (e - 52)" by (rule pow2_pos)
  have "v / pow2 (e - 52) = (v * 256) * (1 / 256) / pow2 (e - 52)" by simp
  also have "\<dots> = (v * 256) * pow2 (44 - e)"
    using u by (simp only: p [symmetric]) simp
  also have "\<dots> = of_int (m * 2 ^ nat (44 - e))"
    using e by (simp add: m pow2_nat)
  finally have q: "v / pow2 (e - 52) = of_int (m * 2 ^ nat (44 - e))" .
  have "binary64 v = of_int (round_half_even (v / pow2 (e - 52))) * pow2 (e - 52)"
    by (rule binary64_unfold [OF False e_def])
  also have "\<dots> = v / pow2 (e - 52) * pow2 (e - 52)"
    unfolding q round_half_even_of_int ..
  also have "\<dots> = v" using u by simp
  finally show ?thesis .
qed

lemma fadd_exact:
  "a * 256 \<in> \<int> \<Longrightarrow> b * 256 \<in> \<int> \<Longrightarrow> \<bar>a + b\<bar> < 35184372088832 \<Longrightarrow> fadd a b = a + b"
  unfolding fadd_def by (rule binary64_exact) (simp_all add: distrib_right)

lemma fsub_exact:
  "a * 256 \<in> \<int> \<Longrightarrow> b * 256 \<in> \<int> \<Longrightarrow> \<bar>a - b\<bar> < 35184372088832 \<Longrightarrow> fsub a b = a - b"
  unfolding fsub_def by (rule binary64_exact) (simp_all add: left_diff_distrib)

lemma fsub_self: "fsub x x = 0"
  by (simp add: fsub_def binary64_0)

text \<open>The converted font units are multiples of \<open>1 / 256\<close>, at most \<open>2 ^ 23\<close> in magnitude.\<close>

lemma fUnitsToFloat64_Ints: "fUnitsToFloat64 v * 256 \<in> \<int>"
proof -
  have "fUnitsToFloat64 v * 256 = of_int (sint (push_bit 2 v :: int32))"
    unfolding fUnitsToFloat64_wrapped by simp
  then show ?thesis by (simp only: Ints_of_int)
qed

lemma fUnitsToFloat64_abs_le: "\<bar>fUnitsToFloat64 v\<bar> \<le> 8388608"
proof -
  have "\<bar>sint (push_bit 2 v :: int32)\<bar> \<le> 2147483648"
    using sint32_range [of "push_bit 2 v"] by linarith
  then have "\<bar>(of_int (sint (push_bit 2 v :: int32)) :: real)\<bar> \<le> 2147483648"
    by (metis of_int_abs of_int_le_numeral_iff)
  then show ?thesis
    unfolding fUnitsToFloat64_wrapped by simp
qed

subsection \<open>Facts about the sample values\<close>

lemmas fUnits_eval = fUnitsToFloat64_def int32_quo_def int32_rem_def float64_of_int32_def
  signed_divide_int_def signed_modulo_int_def

lemma sample_font_fields:
  "Index sample_font 65 = 1" "Index sample_font 66 = 2" "Index sample_font 67 = 3"
  "Kerning sample_font sc 1 2 = 128" "Kerning sample_font sc 2 1 = 0"
  "Kerning sample_font sc 2 3 = 0"
  "AdvanceWidth (HMetric sample_font sc 1) = 640"
  "AdvanceWidth (HMetric sample_font sc 2) = 512"
  "Load sample_font sc 1
     = (\<lparr>Point = [pt 0 0 True, pt 640 0 True, pt 0 640 True], End = [3]\<rparr>, None)"
  "Load sample_font sc 2
     = (\<lparr>Point = [pt 0 0 True, pt 64 0 False, pt 64 64 False, pt 0 64 True], End = [4]\<rparr>, None)"
  "Load sample_font sc 3 = (\<lparr>Point = [], End = []\<rparr>, Some (Error ''no outline''))"
  by (simp_all add: sample_font_def)

lemma sample_gc_fields:
  "Font (Current sample_gc) = Some sample_font"
  "Path (Current sample_gc) = []"
  "logged sample_gc = []"
  "issued (pdf sample_gc) = []"
  by (simp_all add: sample_gc_def)

lemma sample_glyph_loads:
  "glyph_loads sample_font sc 1" "glyph_loads sample_font sc 2" "\<not> glyph_loads sample_font sc 3"
  by (simp_all add: glyph_loads_def sample_font_fields)

lemma fUnitsToFloat64_samples:
  "fUnitsToFloat64 0 = 0" "fUnitsToFloat64 64 = 1" "fUnitsToFloat64 128 = 2"
  "fUnitsToFloat64 512 = 8" "fUnitsToFloat64 640 = 10"
  by (simp_all add: fUnits_eval)

lemma pointToF64Point_samples:
  "pointToF64Point (pt 0 0 on) = (0, 0)"
  "pointToF64Point (pt 640 0 on) = (10, 0)"
  "pointToF64Point (pt 0 640 on) = (0, - 10)"
  "pointToF64Point (pt 64 0 on) = (1, 0)"
  "pointToF64Point (pt 64 64 on) = (1, - 1)"
  "pointToF64Point (pt 0 64 on) = (0, - 1)"
  by (simp_all add: pointToF64Point_def pt_def fUnitsToFloat64_samples)

lemma Flags_pt: "Flags (pt x y True) AND 1 \<noteq> 0" "Flags (pt x y False) AND 1 = 0"
  by (simp_all add: pt_def)

lemma sample_advances:
  "advance sample_font sc 1 = 10" "advance sample_font sc 2 = 8"
  "kerning sample_font sc 1 2 = 2" "kerning sample_font sc 2 1 = 0"
  "kerning sample_font sc 2 3 = 0"
  by (simp_all add: advance_def kerning_def sample_font_fields fUnitsToFloat64_samples)

subsection \<open>Appending to the current path\<close>

lemma emit_Nil: "emit gc [] = gc"
  by (simp add: emit_def)

lemma emit_append: "emit (emit gc as) bs = emit gc (as @ bs)"
  by (simp add: emit_def)

lemma appendToPath_emit: "appendToPath gc c = emit gc [c]"
  by (simp add: emit_def)

lemma emit_Cons: "emit gc (c # cs) = emit (appendToPath gc c) cs"
  by (simp add: emit_def)

lemma emit_eq: "emit gc cs = gc\<lparr>Current := (Current gc)\<lparr>Path := Path (Current gc) @ cs\<rparr>\<rparr>"
  by (induction cs arbitrary: gc) (simp_all add: emit_Nil emit_Cons appendToPath_def)

lemma extends_refl: "extends gc gc"
  unfolding extends_def using emit_Nil [of gc] by metis

lemma extends_emit: "extends gc (emit gc cs)"
  unfolding extends_def by blast

lemma extends_trans: "extends a b \<Longrightarrow> extends b c \<Longrightarrow> extends a c"
  unfolding extends_def using emit_append by metis

lemma extends_glyphBuf: "extends gc gc' \<Longrightarrow> glyphBuf gc' = glyphBuf gc"
  unfolding extends_def by (auto simp: emit_eq)

lemma traces_refl: "traces gc gc"
  unfolding traces_def
proof (intro exI)
  show "gc = emit (gc\<lparr>glyphBuf := glyphBuf gc\<rparr>) []" by (simp add: emit_Nil)
qed

lemma traces_emit: "traces gc (emit gc cs)"
  unfolding traces_def
proof (intro exI)
  show "emit gc cs = emit (gc\<lparr>glyphBuf := glyphBuf gc\<rparr>) cs" by simp
qed

lemma traces_trans:
  assumes "traces a b" and "traces b c"
  shows "traces a c"
proof -
  from assms(1) obtain b1 cs1 where b: "b = emit (a\<lparr>glyphBuf := b1\<rparr>) cs1"
    unfolding traces_def by blast
  from assms(2) obtain b2 cs2 where c: "c = emit (b\<lparr>glyphBuf := b2\<rparr>) cs2"
    unfolding traces_def by blast
  have "c = emit (a\<lparr>glyphBuf := b2\<rparr>) (cs1 @ cs2)"
    unfolding c b by (simp add: emit_eq)
  then show ?thesis unfolding traces_def by blast
qed

lemma traces_glyphBuf: "traces gc (gc\<lparr>glyphBuf := buf\<rparr>)"
  unfolding traces_def
proof (intro exI)
  show "gc\<lparr>glyphBuf := buf\<rparr> = emit (gc\<lparr>glyphBuf := buf\<rparr>) []" by (simp add: emit_Nil)
qed

lemma extends_traces: "extends gc gc' \<Longrightarrow> traces gc gc'"
  unfolding extends_def using traces_emit by blast

lemma traces_fields:
  assumes "traces gc gc'"
  shows "Font (Current gc') = Font (Current gc)"
    and "Scale (Current gc') = Scale (Current gc)"
    and "logged gc' = logged gc"
    and "pdf gc' = pdf gc"
    and "Saved gc' = Saved gc"
    and "\<exists>cs. Path (Current gc') = Path (Current gc) @ cs"
  using assms unfolding traces_def by (auto simp: emit_eq)

subsection \<open>The contour tracer\<close>

text \<open>The tracer only appends segments to the current path.\<close>

lemma drawContour_body_extends: "extends gc (fst (drawContour_body dx dy p (gc, q0X, q0Y, on0)))"
  by (simp add: drawContour_body_def Let_def LineTo_def QuadCurveTo_def appendToPath_emit
      extends_emit extends_refl split: prod.splits)

lemma drawContour_loop_extends: "extends gc (fst (drawContour_loop dx dy ps (gc, q0X, q0Y, on0)))"
proof (induction ps arbitrary: gc q0X q0Y on0)
  case Nil
  show ?case by (simp add: extends_refl)
next
  case (Cons p ps)
  obtain gc1 a b c where st: "drawContour_body dx dy p (gc, q0X, q0Y, on0) = (gc1, a, b, c)"
    by (cases "drawContour_body dx dy p (gc, q0X, q0Y, on0)")
  have "extends gc gc1"
    using drawContour_body_extends [of gc dx dy p q0X q0Y on0] by (simp add: st)
  moreover have "extends gc1 (fst (drawContour_loop dx dy ps (gc1, a, b, c)))"
    by (rule Cons.IH)
  ultimately show ?case
    by (simp add: st) (rule extends_trans)
qed

lemma drawContour_extends: "extends gc (drawContour gc ps dx dy)"
proof (cases ps)
  case Nil
  then show ?thesis by (simp add: drawContour_def extends_refl)
next
  case (Cons p0 rest)
  obtain startX startY where s: "pointToF64Point p0 = (startX, startY)"
    by (cases "pointToF64Point p0")
  let ?m = "MoveTo gc (startX + dx) (startY + dy)"
  obtain gc1 a b c where st: "drawContour_loop dx dy rest (?m, startX, startY, True) = (gc1, a, b, c)"
    by (cases "drawContour_loop dx dy rest (?m, startX, startY, True)")
  have "extends gc ?m"
    by (simp add: MoveTo_def appendToPath_emit extends_emit)
  moreover have "extends ?m gc1"
    using drawContour_loop_extends [of ?m dx dy rest startX startY True] by (simp add: st)
  moreover have "extends gc1 (drawContour_close dx dy startX startY (gc1, a, b, c))"
    by (simp add: drawContour_close_def LineTo_def QuadCurveTo_def appendToPath_emit extends_emit)
  ultimately show ?thesis
    by (simp add: drawContour_def Cons s st) (blast intro: extends_trans)
qed

lemma drawContour_loop_append:
  "drawContour_loop dx dy (ps @ qs) st = drawContour_loop dx dy qs (drawContour_loop dx dy ps st)"
  by (induction ps arbitrary: st) simp_all

lemma drawContour_loop_snoc:
  "drawContour_loop dx dy (ps @ [p]) st = drawContour_body dx dy p (drawContour_loop dx dy ps st)"
  by (simp add: drawContour_loop_append)

lemma drawContour_body_pending:
  "snd (drawContour_body dx dy p st)
     = (fst (pointToF64Point p), snd (pointToF64Point p), Flags p AND 1 \<noteq> 0)"
  by (cases st) (simp add: drawContour_body_def Let_def split: prod.splits)

lemma drawContour_body_on_on:
  "Flags p AND 1 \<noteq> 0 \<Longrightarrow>
   drawContour_body dx dy p (gc, q0X, q0Y, True)
     = (emit gc [lineTo_of dx dy p], fst (pointToF64Point p), snd (pointToF64Point p), True)"
  by (simp add: drawContour_body_def lineTo_of_def LineTo_def appendToPath_emit split: prod.splits)

lemma drawContour_body_off_off:
  "Flags p AND 1 = 0 \<Longrightarrow> pointToF64Point p = (qX, qY) \<Longrightarrow>
   drawContour_body dx dy p (gc, q0X, q0Y, False)
     = (QuadCurveTo gc (q0X + dx) (q0Y + dy) ((q0X + qX) / 2 + dx) ((q0Y + qY) / 2 + dy),
        qX, qY, False)"
  by (simp add: drawContour_body_def Let_def)

lemma drawContour_loop_all_on:
  "\<forall>p \<in> set ps. Flags p AND 1 \<noteq> 0 \<Longrightarrow>
   \<exists>qX qY. drawContour_loop dx dy ps (gc, q0X, q0Y, True)
     = (emit gc (map (lineTo_of dx dy) ps), qX, qY, True)"
proof (induction ps arbitrary: gc q0X q0Y)
  case Nil
  then show ?case by (simp add: emit_Nil)
next
  case (Cons p ps)
  from Cons.prems have p: "Flags p AND 1 \<noteq> 0" and ps: "\<forall>p \<in> set ps. Flags p AND 1 \<noteq> 0"
    by simp_all
  from Cons.IH [OF ps] obtain qX qY where
    "drawContour_loop dx dy ps
       (emit gc [lineTo_of dx dy p], fst (pointToF64Point p), snd (pointToF64Point p), True)
     = (emit (emit gc [lineTo_of dx dy p]) (map (lineTo_of dx dy) ps), qX, qY, True)"
    by blast
  then show ?case
    by (simp add: drawContour_body_on_on [OF p] emit_append)
qed

lemma drawContour_all_on:
  assumes "ps \<noteq> []" and "\<forall>p \<in> set ps. Flags p AND 1 \<noteq> 0"
  shows "drawContour gc ps dx dy =
     emit gc (MoveToCmd (fst (pointToF64Point (hd ps)) + dx) (snd (pointToF64Point (hd ps)) + dy)
              # map (lineTo_of dx dy) (tl ps)
              @ [lineTo_of dx dy (hd ps)])"
proof -
  obtain p0 rest where ps: "ps = p0 # rest" using assms(1) by (cases ps) auto
  obtain startX startY where s: "pointToF64Point p0 = (startX, startY)" by (cases "pointToF64Point p0")
  from assms(2) ps have "\<forall>p \<in> set rest. Flags p AND 1 \<noteq> 0" by simp
  from drawContour_loop_all_on [OF this]
  obtain qX qY where
    "drawContour_loop dx dy rest (MoveTo gc (startX + dx) (startY + dy), startX, startY, True)
       = (emit (MoveTo gc (startX + dx) (startY + dy)) (map (lineTo_of dx dy) rest), qX, qY, True)"
    by blast
  then show ?thesis
    by (simp add: drawContour_def ps s drawContour_close_def LineTo_def MoveTo_def
        appendToPath_emit emit_append lineTo_of_def)
qed

lemma lineTo_of_eq:
  "lineTo_of dx dy = (\<lambda>p. case pointToF64Point p of (x, y) \<Rightarrow> LineToCmd (x + dx) (y + dy))"
  by (rule ext) (simp add: lineTo_of_def)

text \<open>
  C4. For a non-empty contour \<open>ps\<close> of \<open>n\<close> points that are all flagged on-curve,
  \<open>drawContour\<close> appends to the current path exactly: one move-to at the first point,
  one line-to for each of the remaining \<open>n - 1\<close> points in order, and one final
  line-to back to the start point; no quadratic-curve segment; every coordinate is
  offset by \<open>(dx, dy)\<close>. Nothing else of the context changes.
\<close>

theorem drawContour_all_on_curve:
  assumes "ps \<noteq> []" and "\<forall>p \<in> set ps. Flags p AND 1 \<noteq> 0"
  shows "case pointToF64Point (hd ps) of (startX, startY) \<Rightarrow>
     drawContour gc ps dx dy =
       gc\<lparr>Current := (Current gc)\<lparr>Path := Path (Current gc)
          @ MoveToCmd (startX + dx) (startY + dy)
          # map (\<lambda>p. case pointToF64Point p of (x, y) \<Rightarrow> LineToCmd (x + dx) (y + dy)) (tl ps)
          @ [LineToCmd (startX + dx) (startY + dy)]\<rparr>\<rparr>"
  using drawContour_all_on [OF assms, of gc dx dy]
  by (simp add: emit_eq lineTo_of_eq split: prod.splits)

theorem drawContour_all_on_curve_witness:
  "list_all (\<lambda>p. Flags p AND 1 \<noteq> 0) [pt 0 0 True, pt 640 0 True, pt 0 640 True]
   \<and> Path (Current (drawContour sample_gc [pt 0 0 True, pt 640 0 True, pt 0 640 True] 1 2))
       = [MoveToCmd 1 2, LineToCmd 11 2, LineToCmd 1 (- 8), LineToCmd 1 2]"
  using drawContour_all_on_curve [of "[pt 0 0 True, pt 640 0 True, pt 0 640 True]" sample_gc 1 2]
  by (simp add: pointToF64Point_samples Flags_pt sample_gc_fields)

text \<open>
  C5. When \<open>drawContour\<close> processes a point \<open>p1\<close> flagged off-curve whose
  predecessor \<open>p0\<close> in the loop was also off-curve, the loop state before \<open>p1\<close> is
  the pending control point \<open>p0\<close> with the on-curve flag off; the turn for \<open>p1\<close>
  appends exactly one quadratic-curve-to, with \<open>p0\<close> as control point and the midpoint
  \<open>((x0 + x1) / 2, (y0 + y1) / 2)\<close> as endpoint (both offset by \<open>(dx, dy)\<close>), and
  leaves \<open>p1\<close> as the new pending control point, from which the rest of the contour
  is traced. (The first point of a contour is not processed by the loop: it is taken as
  on-curve whatever its flag.)
\<close>

theorem drawContour_off_off:
  assumes off0: "Flags p0 AND 1 = 0" and off1: "Flags p1 AND 1 = 0"
    and start: "pointToF64Point start = (startX, startY)"
    and p0: "pointToF64Point p0 = (x0, y0)"
    and p1: "pointToF64Point p1 = (x1, y1)"
  shows "let init = (MoveTo gc (startX + dx) (startY + dy), startX, startY, True);
             gc1 = fst (drawContour_loop dx dy (pre @ [p0]) init);
             midX = (x0 + x1) / 2;
             midY = (y0 + y1) / 2;
             gc2 = QuadCurveTo gc1 (x0 + dx) (y0 + dy) (midX + dx) (midY + dy)
         in drawContour_loop dx dy (pre @ [p0]) init = (gc1, x0, y0, False)
          \<and> drawContour_body dx dy p1 (gc1, x0, y0, False) = (gc2, x1, y1, False)
          \<and> Path (Current gc2)
              = Path (Current gc1) @ [QuadCurveToCmd (x0 + dx) (y0 + dy) (midX + dx) (midY + dy)]
          \<and> drawContour gc (start # pre @ p0 # p1 # post) dx dy
              = drawContour_close dx dy startX startY
                  (drawContour_loop dx dy post (gc2, x1, y1, False))"
proof -
  define init where "init = (MoveTo gc (startX + dx) (startY + dy), startX, startY, True)"
  define gc1 where "gc1 = fst (drawContour_loop dx dy (pre @ [p0]) init)"
  define gc2 where
    "gc2 = QuadCurveTo gc1 (x0 + dx) (y0 + dy) ((x0 + x1) / 2 + dx) ((y0 + y1) / 2 + dy)"
  have "snd (drawContour_loop dx dy (pre @ [p0]) init) = (x0, y0, False)"
    unfolding drawContour_loop_snoc drawContour_body_pending by (simp add: p0 off0)
  then have a: "drawContour_loop dx dy (pre @ [p0]) init = (gc1, x0, y0, False)"
    unfolding gc1_def by (metis prod.collapse)
  have b: "drawContour_body dx dy p1 (gc1, x0, y0, False) = (gc2, x1, y1, False)"
    unfolding gc2_def by (rule drawContour_body_off_off [OF off1 p1])
  have c: "Path (Current gc2) = Path (Current gc1)
           @ [QuadCurveToCmd (x0 + dx) (y0 + dy) ((x0 + x1) / 2 + dx) ((y0 + y1) / 2 + dy)]"
    unfolding gc2_def by (simp add: QuadCurveTo_def appendToPath_def)
  have "drawContour_loop dx dy ((pre @ [p0]) @ p1 # post) init
      = drawContour_loop dx dy (p1 # post) (drawContour_loop dx dy (pre @ [p0]) init)"
    by (rule drawContour_loop_append)
  also have "\<dots> = drawContour_loop dx dy post (drawContour_body dx dy p1 (gc1, x0, y0, False))"
    by (simp only: a drawContour_loop.simps)
  also have "\<dots> = drawContour_loop dx dy post (gc2, x1, y1, False)"
    by (simp only: b)
  finally have "drawContour_loop dx dy (pre @ p0 # p1 # post) init
      = drawContour_loop dx dy post (gc2, x1, y1, False)"
    by simp
  then have d: "drawContour gc (start # pre @ p0 # p1 # post) dx dy
           = drawContour_close dx dy startX startY
               (drawContour_loop dx dy post (gc2, x1, y1, False))"
    by (simp add: drawContour_def start init_def)
  from a b c d show ?thesis
    unfolding Let_def init_def [symmetric] gc1_def [symmetric] gc2_def [symmetric]
    by blast
qed

theorem drawContour_off_off_witness:
  "Flags (pt 64 0 False) AND 1 = 0 \<and> Flags (pt 64 64 False) AND 1 = 0
   \<and> drawContour_body 0 0 (pt 64 64 False) (MoveTo sample_gc 0 0, 1, 0, False)
       = (QuadCurveTo (MoveTo sample_gc 0 0) 1 0 1 (- 1 / 2), 1, - 1, False)
   \<and> Path (Current
        (drawContour sample_gc [pt 0 0 True, pt 64 0 False, pt 64 64 False, pt 0 64 True] 0 0))
       = [MoveToCmd 0 0, QuadCurveToCmd 1 0 1 (- 1 / 2), QuadCurveToCmd 1 (- 1) 0 (- 1),
          LineToCmd 0 0]"
  using drawContour_off_off [of "pt 64 0 False" "pt 64 64 False" "pt 0 0 True" 0 0 1 0 1 "- 1"
      sample_gc 0 0 "[]" "[pt 0 64 True]"]
  by (simp add: pointToF64Point_samples Flags_pt sample_gc_fields Let_def
      drawContour_body_def drawContour_close_def MoveTo_def LineTo_def QuadCurveTo_def
      appendToPath_def)

subsection \<open>Drawing glyphs and laying out strings\<close>

text \<open>
  A glyph that loads is drawn without a panic and without an error; the context
  afterwards differs by the glyph buffer and by segments appended to the path.
\<close>

lemma drawGlyph_loop_extends:
  "ends_ok es e0 (length (Point (glyphBuf gc))) \<Longrightarrow>
   \<exists>gc'. drawGlyph_loop dx dy es e0 gc = Inr gc' \<and> extends gc gc'"
proof (induction es arbitrary: e0 gc)
  case Nil
  then show ?case by (simp add: extends_refl)
next
  case (Cons e1 es)
  let ?ps = "take (nat (e1 - e0)) (drop (nat e0) (Point (glyphBuf gc)))"
  let ?gc1 = "drawContour gc ?ps dx dy"
  from Cons.prems have sl: "slice (Point (glyphBuf gc)) e0 e1 = Inr ?ps"
    by (simp add: slice_def)
  have e: "extends gc ?gc1" by (rule drawContour_extends)
  then have "glyphBuf ?gc1 = glyphBuf gc" by (rule extends_glyphBuf)
  with Cons.prems have "ends_ok es e1 (length (Point (glyphBuf ?gc1)))" by simp
  from Cons.IH [OF this] obtain gc' where
    "drawGlyph_loop dx dy es e1 ?gc1 = Inr gc'" and "extends ?gc1 gc'" by blast
  with e sl show ?case
    by (auto intro: extends_trans)
qed

lemma drawGlyph_loads:
  assumes "Font (Current gc) = Some font"
    and "glyph_loads font (int32_of_float64 (Scale (Current gc))) i"
  shows "\<exists>gc'. drawGlyph gc i dx dy = Inr (gc', None) \<and> traces gc gc'"
proof -
  let ?scale = "int32_of_float64 (Scale (Current gc))"
  obtain buf where l: "Load font ?scale i = (buf, None)"
    and ok: "ends_ok (End buf) 0 (length (Point buf))"
    using assms(2) unfolding glyph_loads_def
    by (cases "Load font ?scale i") (auto split: option.splits)
  let ?gc0 = "gc\<lparr>glyphBuf := buf\<rparr>"
  from ok have "ends_ok (End buf) 0 (length (Point (glyphBuf ?gc0)))" by simp
  from drawGlyph_loop_extends [OF this] obtain gc' where
    g: "drawGlyph_loop dx dy (End buf) 0 ?gc0 = Inr gc'" and e: "extends ?gc0 gc'" by blast
  have "traces gc ?gc0" by (rule traces_glyphBuf)
  with e have "traces gc gc'" by (blast intro: traces_trans extends_traces)
  moreover have "drawGlyph gc i dx dy = Inr (gc', None)"
    by (simp add: drawGlyph_def assms(1) l g)
  ultimately show ?thesis by blast
qed

lemma drawGlyph_fails:
  assumes "Font (Current gc) = Some font"
    and "Load font (int32_of_float64 (Scale (Current gc))) i = (buf, Some err)"
  shows "drawGlyph gc i dx dy = Inr (gc\<lparr>glyphBuf := buf\<rparr>, Some err)"
  by (simp add: drawGlyph_def assms)

lemma run_width_Nil: "run_width font scale prev hasPrev [] = 0"
  by (simp add: run_width_def)

lemma run_width_Cons:
  "run_width font scale prev hasPrev (i # is) =
     (if hasPrev then kerning font scale prev i else 0) + advance font scale i
     + run_width font scale i True is"
  by (simp add: run_width_def)

lemma advance_kerning_Ints:
  "advance font scale i * 256 \<in> \<int>" "kerning font scale i0 i1 * 256 \<in> \<int>"
  by (simp_all add: advance_def kerning_def fUnitsToFloat64_Ints)

lemma advance_kerning_abs_le:
  "\<bar>advance font scale i\<bar> \<le> 8388608" "\<bar>kerning font scale i0 i1\<bar> \<le> 8388608"
  by (simp_all add: advance_def kerning_def fUnitsToFloat64_abs_le)

lemma run_width_Ints: "run_width font scale prev hasPrev is * 256 \<in> \<int>"
proof (induction "is" arbitrary: prev hasPrev)
  case Nil
  show ?case by (simp add: run_width_Nil)
next
  case (Cons i "is")
  show ?case
    unfolding run_width_Cons
    by (simp add: distrib_right advance_kerning_Ints Cons.IH)
qed

lemma run_width_abs_le:
  "\<bar>run_width font scale prev hasPrev is\<bar> \<le> 16777216 * real (length is)"
proof (induction "is" arbitrary: prev hasPrev)
  case Nil
  show ?case by (simp add: run_width_Nil)
next
  case (Cons i "is")
  have "\<bar>(if hasPrev then kerning font scale prev i else 0)\<bar> \<le> 8388608"
    by (simp add: advance_kerning_abs_le)
  moreover have "\<bar>advance font scale i\<bar> \<le> 8388608"
    by (rule advance_kerning_abs_le)
  moreover have "\<bar>run_width font scale i True is\<bar> \<le> 16777216 * real (length is)"
    by (rule Cons.IH)
  ultimately show ?case
    unfolding run_width_Cons by (simp add: algebra_simps)
qed

text \<open>
  From a start that is a multiple of \<open>1 / 256\<close> and small enough, no addition of the
  run rounds: the cursor is the start plus the width of the run.
\<close>

lemma run_cursor_exact:
  assumes "x * 256 \<in> \<int>"
    and "\<bar>x\<bar> + 16777216 * real (length is) \<le> 17592186044416"
  shows "run_cursor font scale x prev hasPrev is = x + run_width font scale prev hasPrev is"
  using assms
proof (induction "is" arbitrary: x prev hasPrev)
  case Nil
  show ?case by (simp add: run_width_Nil)
next
  case (Cons i "is")
  define k where "k = (if hasPrev then kerning font scale prev i else 0)"
  define a where "a = advance font scale i"
  have k: "k * 256 \<in> \<int>" "\<bar>k\<bar> \<le> 8388608"
    by (simp_all add: k_def advance_kerning_Ints advance_kerning_abs_le)
  have a: "a * 256 \<in> \<int>" "\<bar>a\<bar> \<le> 8388608"
    by (simp_all add: a_def advance_kerning_Ints advance_kerning_abs_le)
  from Cons.prems(2) have b: "\<bar>x\<bar> + 16777216 + 16777216 * real (length is) \<le> 17592186044416"
    by (simp add: algebra_simps)
  have x1: "(if hasPrev then fadd x (kerning font scale prev i) else x) = x + k"
  proof (cases hasPrev)
    case True
    have "\<bar>x + k\<bar> < 35184372088832"
      using k(2) b by linarith
    with Cons.prems(1) k(1) have "fadd x k = x + k"
      by (rule fadd_exact)
    with True show ?thesis by (simp add: k_def)
  next
    case False
    then show ?thesis by (simp add: k_def)
  qed
  have xk: "(x + k) * 256 \<in> \<int>"
    using Cons.prems(1) k(1) by (simp add: distrib_right)
  have "\<bar>x + k + a\<bar> < 35184372088832"
    using k(2) a(2) b by linarith
  with xk a(1) have x2: "fadd (x + k) a = x + k + a"
    by (rule fadd_exact)
  have "(x + k + a) * 256 \<in> \<int>"
    using xk a(1) by (simp add: distrib_right)
  moreover have "\<bar>x + k + a\<bar> + 16777216 * real (length is) \<le> 17592186044416"
    using k(2) a(2) b by linarith
  ultimately have "run_cursor font scale (x + k + a) i True is
      = x + k + a + run_width font scale i True is"
    by (rule Cons.IH)
  then show ?case
    by (simp add: x1 x2 a_def [symmetric] run_width_Cons k_def [symmetric])
qed

lemma fsub_run_cursor_exact:
  assumes "x * 256 \<in> \<int>"
    and "\<bar>x\<bar> + 16777216 * real (length is) \<le> 17592186044416"
  shows "fsub (run_cursor font scale x prev hasPrev is) x = run_width font scale prev hasPrev is"
proof -
  let ?w = "run_width font scale prev hasPrev is"
  have w: "?w * 256 \<in> \<int>" by (rule run_width_Ints)
  have "\<bar>?w\<bar> \<le> 16777216 * real (length is)" by (rule run_width_abs_le)
  with assms(2) have "\<bar>?w\<bar> < 35184372088832" by linarith
  then have "binary64 ?w = ?w" by (rule binary64_exact [OF w])
  then show ?thesis
    by (simp add: run_cursor_exact [OF assms] fsub_def)
qed

lemma CreateStringPath_loop_Cons_loads:
  assumes "drawGlyph gc (Index font r) x1 y = Inr (gc1, None)"
    and "x1 = (if hasPrev
               then fadd x (fUnitsToFloat64
                              (Kerning font (int32_of_float64 (Scale (Current gc))) prev (Index font r)))
               else x)"
  shows "CreateStringPath_loop (Some font) startx y (r # s) gc x prev hasPrev
     = CreateStringPath_loop (Some font) startx y s gc1
         (fadd x1 (fUnitsToFloat64
                     (AdvanceWidth (HMetric font (int32_of_float64 (Scale (Current gc1))) (Index font r)))))
         (Index font r) True"
  using assms by (cases hasPrev) (simp_all add: Let_def)

lemma CreateStringPath_loop_Cons_fails:
  assumes "drawGlyph gc (Index font r) x1 y = Inr (gc1, Some err)"
    and "x1 = (if hasPrev
               then fadd x (fUnitsToFloat64
                              (Kerning font (int32_of_float64 (Scale (Current gc))) prev (Index font r)))
               else x)"
  shows "CreateStringPath_loop (Some font) startx y (r # s) gc x prev hasPrev
     = Inr (fsub startx x1, Println gc1 err)"
  using assms by (cases hasPrev) (simp_all add: Let_def)

text \<open>
  The loop over a prefix of glyphs that all load: it reaches the rest of the string with
  the cursor that \<open>run_cursor\<close> gives, the last glyph of the prefix as \<^verbatim>\<open>prev\<close>, and
  a context that differs by traced contours only.
\<close>

lemma CreateStringPath_loop_prefix:
  assumes "Font (Current gc) = Some font"
    and "scale = int32_of_float64 (Scale (Current gc))"
    and "\<forall>r \<in> set pre. glyph_loads font scale (Index font r)"
  shows "\<exists>gc'. traces gc gc' \<and>
     (\<forall>rest. CreateStringPath_loop (Some font) startx y (pre @ rest) gc x prev hasPrev
        = CreateStringPath_loop (Some font) startx y rest gc'
            (run_cursor font scale x prev hasPrev (map (Index font) pre))
            (last (prev # map (Index font) pre)) (hasPrev \<or> pre \<noteq> []))"
  using assms
proof (induction pre arbitrary: gc x prev hasPrev)
  case Nil
  show ?case
    by (rule exI [of _ gc]) (simp add: traces_refl)
next
  case (Cons r pre)
  let ?i = "Index font r"
  define x1 where
    "x1 = (if hasPrev then fadd x (fUnitsToFloat64 (Kerning font scale prev ?i)) else x)"
  define x2 where "x2 = fadd x1 (fUnitsToFloat64 (AdvanceWidth (HMetric font scale ?i)))"
  from Cons.prems have "glyph_loads font (int32_of_float64 (Scale (Current gc))) ?i"
    by simp
  from drawGlyph_loads [OF Cons.prems(1) this] obtain gc1 where
    g: "drawGlyph gc ?i x1 y = Inr (gc1, None)" and t: "traces gc gc1" by blast
  have f1: "Font (Current gc1) = Some font" and s1: "scale = int32_of_float64 (Scale (Current gc1))"
    using traces_fields(1,2) [OF t] Cons.prems(1,2) by simp_all
  from Cons.prems(3) have "\<forall>r \<in> set pre. glyph_loads font scale (Index font r)" by simp
  from Cons.IH [OF f1 s1 this] obtain gc' where
    t': "traces gc1 gc'" and
    r: "\<And>rest. CreateStringPath_loop (Some font) startx y (pre @ rest) gc1 x2 ?i True
        = CreateStringPath_loop (Some font) startx y rest gc'
            (run_cursor font scale x2 ?i True (map (Index font) pre))
            (last (?i # map (Index font) pre)) (True \<or> pre \<noteq> [])"
    by blast
  have w: "run_cursor font scale x2 ?i True (map (Index font) pre)
      = run_cursor font scale x prev hasPrev (map (Index font) (r # pre))"
    by (simp add: x2_def x1_def advance_def kerning_def)
  have "traces gc gc'" using t t' by (rule traces_trans)
  moreover have "CreateStringPath_loop (Some font) startx y ((r # pre) @ rest) gc x prev hasPrev
        = CreateStringPath_loop (Some font) startx y rest gc'
            (run_cursor font scale x prev hasPrev (map (Index font) (r # pre)))
            (last (prev # map (Index font) (r # pre))) (hasPrev \<or> r # pre \<noteq> [])" for rest
  proof -
    have "CreateStringPath_loop (Some font) startx y (r # pre @ rest) gc x prev hasPrev
        = CreateStringPath_loop (Some font) startx y (pre @ rest) gc1 x2 ?i True"
      unfolding x2_def s1
      by (rule CreateStringPath_loop_Cons_loads [OF g]) (simp add: x1_def Cons.prems(2))
    also note r
    finally show ?thesis
      by (simp only: w append_Cons) simp
  qed
  ultimately show ?case by blast
qed

lemma CreateStringPath_eq_loop:
  "CreateStringPath gc s x y = CreateStringPath_loop (Font (Current gc)) x y s gc x 0 False"
  by (simp add: CreateStringPath_def loadCurrentFont_def)

lemma run_width_runes:
  "run_width font scale prev False (map (Index font) s)
     = sum_list (map (\<lambda>r. advance font scale (Index font r)) s)
       + sum_list (map2 (\<lambda>a b. kerning font scale (Index font a) (Index font b)) s (tl s))"
proof -
  have "map2 (kerning font scale) (map (Index font) s) (tl (map (Index font) s))
      = map2 (\<lambda>a b. kerning font scale (Index font a) (Index font b)) s (tl s)"
    by (induction s rule: induct_list012) simp_all
  then show ?thesis
    by (simp add: run_width_def comp_def)
qed

lemma CreateStringPath_loads:
  assumes "Font (Current gc) = Some font"
    and "scale = int32_of_float64 (Scale (Current gc))"
    and "\<forall>r \<in> set s. glyph_loads font scale (Index font r)"
  shows "\<exists>gc'. traces gc gc' \<and>
     CreateStringPath gc s x y
       = Inr (fsub (run_cursor font scale x 0 False (map (Index font) s)) x, gc')"
proof -
  from CreateStringPath_loop_prefix [OF assms, of x y x 0 False] obtain gc' where
    t: "traces gc gc'" and
    r: "\<And>rest. CreateStringPath_loop (Some font) x y (s @ rest) gc x 0 False
        = CreateStringPath_loop (Some font) x y rest gc'
            (run_cursor font scale x 0 False (map (Index font) s))
            (last (0 # map (Index font) s)) (False \<or> s \<noteq> [])"
    by blast
  from r [of "[]"] have "CreateStringPath gc s x y
      = Inr (fsub (run_cursor font scale x 0 False (map (Index font) s)) x, gc')"
    by (simp add: CreateStringPath_eq_loop assms(1))
  with t show ?thesis by blast
qed

lemma CreateStringPath_fails_after:
  assumes font: "Font (Current gc) = Some font"
    and scale: "scale = int32_of_float64 (Scale (Current gc))"
    and pre: "\<forall>r \<in> set pre. glyph_loads font scale (Index font r)"
    and fail: "Load font scale (Index font r) = (buf, Some err)"
    and cursor: "cursor = run_cursor font scale x 0 False (map (Index font) pre)"
    and cursorX: "cursorX = (if pre = [] then cursor
        else fadd cursor (kerning font scale (Index font (last pre)) (Index font r)))"
  shows "\<exists>gc1. traces gc gc1
     \<and> CreateStringPath gc pre x y = Inr (fsub cursor x, gc1)
     \<and> CreateStringPath gc (pre @ r # post) x y
         = Inr (fsub x cursorX, Println (gc1\<lparr>glyphBuf := buf\<rparr>) err)"
proof -
  from CreateStringPath_loop_prefix [OF font scale pre, of x y x 0 False] obtain gc1 where
    t: "traces gc gc1" and
    r: "\<And>rest. CreateStringPath_loop (Some font) x y (pre @ rest) gc x 0 False
        = CreateStringPath_loop (Some font) x y rest gc1 cursor
            (last (0 # map (Index font) pre)) (False \<or> pre \<noteq> [])"
    unfolding cursor by blast
  have f1: "Font (Current gc1) = Some font"
    and s1: "int32_of_float64 (Scale (Current gc1)) = scale"
    using traces_fields(1,2) [OF t] font scale by simp_all
  have a: "CreateStringPath gc pre x y = Inr (fsub cursor x, gc1)"
    using r [of "[]"] by (simp add: CreateStringPath_eq_loop font)
  have "drawGlyph gc1 (Index font r) cursorX y = Inr (gc1\<lparr>glyphBuf := buf\<rparr>, Some err)"
    by (rule drawGlyph_fails [OF f1]) (simp add: s1 fail)
  then have "CreateStringPath_loop (Some font) x y (r # post) gc1 cursor
      (last (0 # map (Index font) pre)) (False \<or> pre \<noteq> [])
      = Inr (fsub x cursorX, Println (gc1\<lparr>glyphBuf := buf\<rparr>) err)"
    by (rule CreateStringPath_loop_Cons_fails)
       (simp add: cursorX s1 kerning_def last_map)
  with r [of "r # post"] have "CreateStringPath gc (pre @ r # post) x y
      = Inr (fsub x cursorX, Println (gc1\<lparr>glyphBuf := buf\<rparr>) err)"
    by (simp add: CreateStringPath_eq_loop font)
  with t a show ?thesis by blast
qed

text \<open>
  The binary64 value nearest to 12.3, and the cursor arithmetic of a string with
  advances 10 and 8 and kerning 2 laid out from there: the last addition rounds.
\<close>

lemma binary64_12_3:
  "binary64 (3462142213541069 / 281474976710656) = 3462142213541069 / 281474976710656"
  by code_simp

lemma cursor_from_12_3:
  "fsub (fadd (fadd (fadd (3462142213541069 / 281474976710656) 10) 2) 8)
        (3462142213541069 / 281474976710656)
     = 5629499534213119 / 281474976710656"
  "fadd (fadd (fadd (fadd (3462142213541069 / 281474976710656) 10) 2) 8) 0
     = 2272910436938547 / 70368744177664"
  "fsub (3462142213541069 / 281474976710656) (2272910436938547 / 70368744177664)
     = - (5629499534213119 / 281474976710656)"
  by code_simp+

lemma cursor_from_0:
  "fadd 0 10 = 10" "fadd 10 2 = 12" "fadd 12 8 = 20" "fadd 20 10 = 30" "fadd 20 0 = 20"
  "fsub 10 0 = 10" "fsub 20 0 = 20" "fsub 0 20 = - 20"
  "fadd 3 10 = 13" "fadd 13 2 = 15" "fadd 15 8 = 23" "fadd 23 0 = 23" "fadd 23 10 = 33"
  "fsub 23 3 = 20" "fsub 33 3 = 30"
  by (simp_all add: fadd_exact fsub_exact)

text \<open>
  C6 (as amended). When the font is set and every glyph of the string loads,
  \<open>CreateStringPath\<close> returns, without a panic and without logging, the cursor minus
  the start in binary64, the cursor being advanced by one binary64 addition per
  kerning and per advance. When the start is a multiple of \<open>1 / 256\<close> with
  \<open>|x| + 2^24 * n \<le> 2^44\<close> for the \<open>n\<close> glyphs of the string (a start at 0, say),
  nothing is rounded and the result is the sum over all glyphs of the converted advance
  width plus, for every pair of consecutive glyphs, the converted kerning. For the empty
  string it returns 0 and leaves the context, hence the path, as it is (whatever the
  font and the start). For a string of two glyphs with converted advances 10 and 8 and
  converted kerning 2, laid out from such a start, it returns 20.
\<close>

theorem CreateStringPath_advance:
  "(Font (Current gc) = Some font \<and> scale = int32_of_float64 (Scale (Current gc))
      \<and> (\<forall>r \<in> set s. glyph_loads font scale (Index font r))
    \<longrightarrow> (\<exists>gc'. CreateStringPath gc s x y
            = Inr (fsub (run_cursor font scale x 0 False (map (Index font) s)) x, gc')
          \<and> logged gc' = logged gc \<and> pdf gc' = pdf gc))
   \<and> (Font (Current gc) = Some font \<and> scale = int32_of_float64 (Scale (Current gc))
      \<and> (\<forall>r \<in> set s. glyph_loads font scale (Index font r))
      \<and> x * 256 \<in> \<int> \<and> \<bar>x\<bar> + 16777216 * real (length s) \<le> 17592186044416
    \<longrightarrow> (\<exists>gc'. CreateStringPath gc s x y
            = Inr (sum_list (map (\<lambda>r. advance font scale (Index font r)) s)
                   + sum_list (map2 (\<lambda>a b. kerning font scale (Index font a) (Index font b))
                                 s (tl s)),
                   gc')
          \<and> logged gc' = logged gc \<and> pdf gc' = pdf gc))
   \<and> CreateStringPath gc [] x y = Inr (0, gc)
   \<and> (Font (Current gc) = Some font \<and> scale = int32_of_float64 (Scale (Current gc))
      \<and> glyph_loads font scale (Index font a) \<and> glyph_loads font scale (Index font b)
      \<and> advance font scale (Index font a) = 10
      \<and> kerning font scale (Index font a) (Index font b) = 2
      \<and> advance font scale (Index font b) = 8
      \<and> x * 256 \<in> \<int> \<and> \<bar>x\<bar> + 16777216 * 2 \<le> 17592186044416
    \<longrightarrow> (\<exists>gc'. CreateStringPath gc [a, b] x y = Inr (20, gc')))"
proof (intro conjI impI)
  assume h: "Font (Current gc) = Some font \<and> scale = int32_of_float64 (Scale (Current gc))
      \<and> (\<forall>r \<in> set s. glyph_loads font scale (Index font r))"
  then obtain gc' where t: "traces gc gc'"
    and c: "CreateStringPath gc s x y
      = Inr (fsub (run_cursor font scale x 0 False (map (Index font) s)) x, gc')"
    using CreateStringPath_loads [of gc font scale s x y] by blast
  from t have "logged gc' = logged gc" "pdf gc' = pdf gc"
    by (rule traces_fields)+
  with c show "\<exists>gc'. CreateStringPath gc s x y
            = Inr (fsub (run_cursor font scale x 0 False (map (Index font) s)) x, gc')
          \<and> logged gc' = logged gc \<and> pdf gc' = pdf gc"
    by blast
next
  assume h: "Font (Current gc) = Some font \<and> scale = int32_of_float64 (Scale (Current gc))
      \<and> (\<forall>r \<in> set s. glyph_loads font scale (Index font r))
      \<and> x * 256 \<in> \<int> \<and> \<bar>x\<bar> + 16777216 * real (length s) \<le> 17592186044416"
  then obtain gc' where t: "traces gc gc'"
    and c: "CreateStringPath gc s x y
      = Inr (fsub (run_cursor font scale x 0 False (map (Index font) s)) x, gc')"
    using CreateStringPath_loads [of gc font scale s x y] by blast
  from h have "x * 256 \<in> \<int>"
    and "\<bar>x\<bar> + 16777216 * real (length (map (Index font) s)) \<le> 17592186044416"
    by simp_all
  then have "fsub (run_cursor font scale x 0 False (map (Index font) s)) x
      = run_width font scale 0 False (map (Index font) s)"
    by (rule fsub_run_cursor_exact)
  with c have c': "CreateStringPath gc s x y
      = Inr (run_width font scale 0 False (map (Index font) s), gc')"
    by simp
  from t have "logged gc' = logged gc" "pdf gc' = pdf gc"
    by (rule traces_fields)+
  with c' show "\<exists>gc'. CreateStringPath gc s x y
            = Inr (sum_list (map (\<lambda>r. advance font scale (Index font r)) s)
                   + sum_list (map2 (\<lambda>a b. kerning font scale (Index font a) (Index font b))
                                 s (tl s)),
                   gc')
          \<and> logged gc' = logged gc \<and> pdf gc' = pdf gc"
    unfolding run_width_runes by blast
next
  show "CreateStringPath gc [] x y = Inr (0, gc)"
    by (simp add: CreateStringPath_eq_loop fsub_self)
next
  assume h: "Font (Current gc) = Some font \<and> scale = int32_of_float64 (Scale (Current gc))
      \<and> glyph_loads font scale (Index font a) \<and> glyph_loads font scale (Index font b)
      \<and> advance font scale (Index font a) = 10
      \<and> kerning font scale (Index font a) (Index font b) = 2
      \<and> advance font scale (Index font b) = 8
      \<and> x * 256 \<in> \<int> \<and> \<bar>x\<bar> + 16777216 * 2 \<le> 17592186044416"
  then have "\<forall>r \<in> set [a, b]. glyph_loads font scale (Index font r)" by force
  with h obtain gc' where c:
    "CreateStringPath gc [a, b] x y
       = Inr (fsub (run_cursor font scale x 0 False (map (Index font) [a, b])) x, gc')"
    using CreateStringPath_loads [of gc font scale "[a, b]" x y] by blast
  from h have "x * 256 \<in> \<int>"
    and "\<bar>x\<bar> + 16777216 * real (length (map (Index font) [a, b])) \<le> 17592186044416"
    by simp_all
  then have e: "fsub (run_cursor font scale x 0 False (map (Index font) [a, b])) x
      = run_width font scale 0 False (map (Index font) [a, b])"
    by (rule fsub_run_cursor_exact)
  have "advance font scale (Index font a) = 10"
    "kerning font scale (Index font a) (Index font b) = 2"
    "advance font scale (Index font b) = 8"
    using h by blast+
  then have "run_width font scale 0 False (map (Index font) [a, b]) = 20"
    by (simp add: run_width_def)
  with c e show "\<exists>gc'. CreateStringPath gc [a, b] x y = Inr (20, gc')" by simp
qed

theorem CreateStringPath_advance_witness:
  "glyph_loads sample_font (int32_of_float64 (Scale (Current sample_gc))) (Index sample_font 65)
   \<and> glyph_loads sample_font (int32_of_float64 (Scale (Current sample_gc))) (Index sample_font 66)
   \<and> (3 :: real) * 256 \<in> \<int>
   \<and> (\<exists>gc'. CreateStringPath sample_gc [65, 66] 3 4 = Inr (20, gc'))
   \<and> (\<exists>gc'. CreateStringPath sample_gc [65, 66, 65] 3 4 = Inr (30, gc') \<and> logged gc' = [])"
  using CreateStringPath_advance [of sample_gc sample_font
      "int32_of_float64 (Scale (Current sample_gc))" "[65, 66, 65]" 3 4 65 66]
  by (simp add: sample_gc_fields sample_font_fields sample_glyph_loads sample_advances) blast

text \<open>
  The claim C6 as it was stated gives the sum, and 20 for advances 10 and 8 with
  kerning 2, from any start. From the binary64 value nearest to 12.3 the sample string
  of these two glyphs returns \<open>5629499534213119 / 2^48\<close>, which is
  19.999999999999996 and not 20: the third addition of the cursor rounds.
\<close>

theorem CreateStringPath_advance_counterexample:
  "binary64 (3462142213541069 / 281474976710656) = 3462142213541069 / 281474976710656
   \<and> glyph_loads sample_font 213 (Index sample_font 65)
   \<and> glyph_loads sample_font 213 (Index sample_font 66)
   \<and> advance sample_font 213 (Index sample_font 65) = 10
   \<and> kerning sample_font 213 (Index sample_font 65) (Index sample_font 66) = 2
   \<and> advance sample_font 213 (Index sample_font 66) = 8
   \<and> int32_of_float64 (Scale (Current sample_gc)) = 213
   \<and> map_sum id fst (CreateStringPath sample_gc [65, 66] (3462142213541069 / 281474976710656) 0)
       = Inr (5629499534213119 / 281474976710656)
   \<and> (5629499534213119 / 281474976710656 :: real) \<noteq> 20"
proof -
  have p: "\<forall>r \<in> set [65, 66]. glyph_loads sample_font
      (int32_of_float64 (Scale (Current sample_gc))) (Index sample_font r)"
    by (simp add: sample_font_fields sample_glyph_loads)
  obtain gc' where "CreateStringPath sample_gc [65, 66] (3462142213541069 / 281474976710656) 0
      = Inr (5629499534213119 / 281474976710656, gc')"
    using CreateStringPath_loads [OF sample_gc_fields(1) refl p,
        of "3462142213541069 / 281474976710656" 0]
    by (auto simp: sample_font_fields sample_advances cursor_from_12_3)
  then show ?thesis
    by (simp add: binary64_12_3 sample_font_fields sample_glyph_loads sample_advances
        sample_gc_def int32_of_float64_def int_of_float64_def)
qed

text \<open>
  C7. If the glyphs of \<open>pre\<close> load and loading the outline of the next glyph \<open>r\<close>
  fails with \<open>err\<close>, then \<open>CreateStringPath\<close> on \<open>pre @ r # post\<close> logs \<open>err\<close>,
  ignores \<open>post\<close>, and returns the start minus the cursor in binary64, where the
  cursor is the one that the glyphs of \<open>pre\<close> have advanced, plus the kerning towards
  \<open>r\<close>; for a start that is a binary64 value this is negative whenever the cursor has
  moved past the start. The current path is the one that laying out \<open>pre\<close> alone
  leaves: the path before the call followed by the contours of the glyphs of \<open>pre\<close>.
\<close>

theorem CreateStringPath_glyph_failure:
  assumes "Font (Current gc) = Some font"
    and "scale = int32_of_float64 (Scale (Current gc))"
    and "\<forall>r \<in> set pre. glyph_loads font scale (Index font r)"
    and "Load font scale (Index font r) = (buf, Some err)"
  shows "case CreateStringPath gc pre x y of
           Inl p \<Rightarrow> False
         | Inr (w, gc1) \<Rightarrow>
             (let cursor = run_cursor font scale x 0 False (map (Index font) pre);
                  cursorX = (if pre = [] then cursor
                             else fadd cursor
                                    (kerning font scale (Index font (last pre)) (Index font r)));
                  gc2 = Println (gc1\<lparr>glyphBuf := buf\<rparr>) err
              in w = fsub cursor x
               \<and> CreateStringPath gc (pre @ r # post) x y = Inr (fsub x cursorX, gc2)
               \<and> logged gc2 = logged gc @ [err]
               \<and> Path (Current gc2) = Path (Current gc1)
               \<and> (\<exists>cs. Path (Current gc1) = Path (Current gc) @ cs)
               \<and> (binary64 x = x \<and> x < cursorX \<longrightarrow> fsub x cursorX < 0))"
proof -
  define cursor where "cursor = run_cursor font scale x 0 False (map (Index font) pre)"
  define cursorX where "cursorX = (if pre = [] then cursor
      else fadd cursor (kerning font scale (Index font (last pre)) (Index font r)))"
  from CreateStringPath_fails_after [OF assms cursor_def cursorX_def, of y post] obtain gc1 where
    t: "traces gc gc1" and a: "CreateStringPath gc pre x y = Inr (fsub cursor x, gc1)"
    and b: "CreateStringPath gc (pre @ r # post) x y
         = Inr (fsub x cursorX, Println (gc1\<lparr>glyphBuf := buf\<rparr>) err)"
    by blast
  have l: "logged gc1 = logged gc" and p: "\<exists>cs. Path (Current gc1) = Path (Current gc) @ cs"
    using traces_fields(3,6) [OF t] by simp_all
  have n: "fsub x cursorX < 0" if "binary64 x = x" and "x < cursorX"
  proof (cases "pre = []")
    case True
    with that(2) show ?thesis by (simp add: cursorX_def cursor_def)
  next
    case False
    then have c: "cursorX
        = binary64 (cursor + kerning font scale (Index font (last pre)) (Index font r))"
      by (simp add: cursorX_def fadd_def)
    from that show ?thesis
      unfolding c by (rule fsub_negative)
  qed
  show ?thesis
    unfolding a cursor_def [symmetric]
    using b l p n
    by (simp add: Let_def Println_def cursorX_def [symmetric])
qed

theorem CreateStringPath_glyph_failure_witness:
  "list_all (\<lambda>r. glyph_loads sample_font (int32_of_float64 (Scale (Current sample_gc)))
               (Index sample_font r)) [65, 66]
   \<and> (\<exists>gc2. CreateStringPath sample_gc ([65, 66] @ 67 # [65]) 0 0 = Inr (- 20, gc2)
        \<and> logged gc2 = [Error ''no outline''])
   \<and> binary64 (3462142213541069 / 281474976710656) = 3462142213541069 / 281474976710656
   \<and> (\<exists>gc2. CreateStringPath sample_gc ([65, 66] @ 67 # [65])
                (3462142213541069 / 281474976710656) 0
              = Inr (- 5629499534213119 / 281474976710656, gc2)
        \<and> logged gc2 = [Error ''no outline''])"
proof -
  have p: "\<forall>r \<in> set [65, 66]. glyph_loads sample_font
      (int32_of_float64 (Scale (Current sample_gc))) (Index sample_font r)"
    by (simp add: sample_font_fields sample_glyph_loads)
  obtain gc1 where c: "CreateStringPath sample_gc [65, 66] 0 0 = Inr (20, gc1)"
    using CreateStringPath_loads [OF sample_gc_fields(1) refl p, of 0 0]
    by (auto simp: sample_font_fields sample_advances cursor_from_0)
  obtain gc1' where c': "CreateStringPath sample_gc [65, 66] (3462142213541069 / 281474976710656) 0
      = Inr (5629499534213119 / 281474976710656, gc1')"
    using CreateStringPath_loads [OF sample_gc_fields(1) refl p,
        of "3462142213541069 / 281474976710656" 0]
    by (auto simp: sample_font_fields sample_advances cursor_from_12_3)
  have f: "Load sample_font (int32_of_float64 (Scale (Current sample_gc))) (Index sample_font 67)
      = (\<lparr>Point = [], End = []\<rparr>, Some (Error ''no outline''))"
    by (simp add: sample_font_fields)
  show ?thesis
    using CreateStringPath_glyph_failure [OF sample_gc_fields(1) refl p f,
        where x = 0 and y = 0 and post = "[65]"]
      CreateStringPath_glyph_failure [OF sample_gc_fields(1) refl p f,
        where x = "3462142213541069 / 281474976710656" and y = 0 and post = "[65]"]
    by (simp add: c c' sample_font_fields sample_glyph_loads sample_advances sample_gc_fields
        Let_def cursor_from_0 cursor_from_12_3 binary64_12_3)
qed

text \<open>
  C10. For every context, \<open>loadCurrentFont\<close> returns the current font with a nil
  error, also when no font is assigned; so \<open>CreateStringPath\<close> never takes the branch
  that logs a font error and returns \<open>0.0\<close>: it always runs the loop on the current
  font. A missing font is not reported at this step: with a nil font the empty string
  returns 0 with nothing logged, and any other string ends in a nil-pointer dereference
  at its first rune.
\<close>

theorem loadCurrentFont_nil_error:
  "loadCurrentFont gc = (Font (Current gc), None)
   \<and> CreateStringPath gc s x y = CreateStringPath_loop (Font (Current gc)) x y s gc x 0 False
   \<and> (Font (Current gc) = None \<longrightarrow>
        CreateStringPath gc s x y = (if s = [] then Inr (0, gc) else Inl NilPointerDereference))"
  by (cases s) (simp_all add: CreateStringPath_eq_loop loadCurrentFont_def fsub_self)

theorem loadCurrentFont_nil_error_witness:
  "Font (Current (SetFont sample_gc None)) = None
   \<and> loadCurrentFont (SetFont sample_gc None) = (None, None)
   \<and> CreateStringPath (SetFont sample_gc None) [65] 0 0 = Inl NilPointerDereference
   \<and> CreateStringPath (SetFont sample_gc None) [] 0 0 = Inr (0, SetFont sample_gc None)"
  using loadCurrentFont_nil_error [of "SetFont sample_gc None" "[65]" 0 0]
    loadCurrentFont_nil_error [of "SetFont sample_gc None" "[]" 0 0]
  by (simp add: SetFont_def fsub_self)

subsection \<open>Dispatching draws\<close>

lemma drawn_PathOps: "drawn a (map PdfPathOp ops @ cs) = drawn a cs"
  by (induction ops) simp_all

lemma pathOps_PathOps: "pathOps (map PdfPathOp ops @ cs) = ops @ pathOps cs"
  by (induction ops) simp_all

lemma new_cmds: "drop (length xs) (xs @ ys) = ys"
  by simp

lemma draw_Current: "Current (draw gc style a paths) = Current gc"
  by (simp add: draw_def Let_def GetAlpha_def split: prod.splits)

lemma draw_issued:
  "issued (pdf (draw gc style a paths))
     = issued (pdf gc) @ map PdfPathOp (concat paths @ Path (Current gc))
       @ (if float64_of_uint32 a / alphaMax \<noteq> alpha (pdf gc)
          then [PdfSetAlpha (float64_of_uint32 a / alphaMax) (blendMode (pdf gc))] else [])
       @ [PdfDrawPath style]"
  by (simp add: draw_def Let_def GetAlpha_def SetAlpha_def DrawPath_def Convert_def issue_def)

lemma draw_alpha: "alpha (pdf (draw gc style a paths)) = float64_of_uint32 a / alphaMax"
  by (simp add: draw_def Let_def GetAlpha_def SetAlpha_def DrawPath_def Convert_def issue_def)

lemma draw_blendMode: "blendMode (pdf (draw gc style a paths)) = blendMode (pdf gc)"
  by (simp add: draw_def Let_def GetAlpha_def SetAlpha_def DrawPath_def Convert_def issue_def)

lemma resetPath_fields:
  "pdf (resetPath gc) = pdf gc" "Path (Current (resetPath gc)) = NewPathStorage"
  by (simp_all add: resetPath_def)

lemma float64_of_uint32_inject:
  "float64_of_uint32 a / alphaMax = float64_of_uint32 b / alphaMax \<longleftrightarrow> a = b"
  by (simp add: float64_of_uint32_def alphaMax_def word_eq_iff_unsigned [where ?'a = real])

lemma Stroke_issued:
  "issued (pdf (Stroke gc paths))
     = issued (pdf gc) @ map PdfPathOp (concat paths @ Path (Current gc))
       @ (if float64_of_uint32 (RGBA_a (StrokeColor (Current gc))) / alphaMax \<noteq> alpha (pdf gc)
          then [PdfSetAlpha (float64_of_uint32 (RGBA_a (StrokeColor (Current gc))) / alphaMax)
                  (blendMode (pdf gc))]
          else [])
       @ [PdfDrawPath ''D'']"
  by (simp add: Stroke_def Let_def resetPath_fields draw_issued)

lemma Fill_issued:
  "issued (pdf (Fill gc paths))
     = issued (pdf gc) @ map PdfPathOp (concat paths @ Path (Current gc))
       @ (if float64_of_uint32 (RGBA_a (FillColor (Current gc))) / alphaMax \<noteq> alpha (pdf gc)
          then [PdfSetAlpha (float64_of_uint32 (RGBA_a (FillColor (Current gc))) / alphaMax)
                  (blendMode (pdf gc))]
          else [])
       @ [PdfDrawPath (if UseNonZeroWinding (FillRule (Current gc)) then ''F'' else ''F*'')]"
  by (simp add: Fill_def Let_def resetPath_fields draw_issued)

lemma consumed_draw: "consumed gc (draw gc style a paths) = concat paths @ Path (Current gc)"
  unfolding consumed_def draw_issued new_cmds by (simp add: pathOps_PathOps)

lemma consumed_draw_draw:
  "consumed gc (draw (draw gc style a paths) style' a' paths)
     = (concat paths @ Path (Current gc)) @ (concat paths @ Path (Current gc))"
proof -
  have "issued (pdf (draw (draw gc style a paths) style' a' paths))
      = issued (pdf gc)
        @ (map PdfPathOp (concat paths @ Path (Current gc))
           @ ((if float64_of_uint32 a / alphaMax \<noteq> alpha (pdf gc)
               then [PdfSetAlpha (float64_of_uint32 a / alphaMax) (blendMode (pdf gc))] else [])
              @ [PdfDrawPath style])
           @ map PdfPathOp (concat paths @ Path (Current gc))
           @ ((if float64_of_uint32 a' / alphaMax \<noteq> float64_of_uint32 a / alphaMax
               then [PdfSetAlpha (float64_of_uint32 a' / alphaMax) (blendMode (pdf gc))] else [])
              @ [PdfDrawPath style']))"
    by (simp only: draw_issued [of "draw gc style a paths"] draw_issued [of gc] draw_Current
        draw_alpha draw_blendMode append_assoc)
  then show ?thesis
    unfolding consumed_def new_cmds by (simp add: pathOps_PathOps)
qed

lemma consumed_resetPath: "consumed gc (resetPath g) = consumed gc g"
  by (simp add: consumed_def resetPath_fields)

lemma consumed_Stroke: "consumed gc (Stroke gc paths) = concat paths @ Path (Current gc)"
  by (simp add: Stroke_def Let_def consumed_resetPath consumed_draw)

lemma consumed_Fill: "consumed gc (Fill gc paths) = concat paths @ Path (Current gc)"
  by (simp add: Fill_def Let_def consumed_resetPath consumed_draw)

lemma consumed_FillStroke:
  "consumed gc (FillStroke gc paths)
     = (if RGBA_a (StrokeColor (Current gc)) = RGBA_a (FillColor (Current gc))
        then concat paths @ Path (Current gc)
        else (concat paths @ Path (Current gc)) @ (concat paths @ Path (Current gc)))"
  by (simp add: FillStroke_def Let_def consumed_resetPath consumed_draw consumed_draw_draw)

lemma Current_after_draw:
  "Current (Stroke gc paths) = (Current gc)\<lparr>Path := NewPathStorage\<rparr>"
  "Current (Fill gc paths) = (Current gc)\<lparr>Path := NewPathStorage\<rparr>"
  "Current (FillStroke gc paths) = (Current gc)\<lparr>Path := NewPathStorage\<rparr>"
  by (simp_all add: Stroke_def Fill_def FillStroke_def Let_def resetPath_def draw_Current)

text \<open>
  C2. The source documents \<^verbatim>\<open>StrokeStringAt\<close> as filling the string, like
  \<^verbatim>\<open>FillStringAt\<close>. The code only lays the string out: for every input it is
  \<open>CreateStringPath\<close>. On the sample context and the one-glyph string of rune 65 at
  \<open>(0, 0)\<close>, \<^verbatim>\<open>StrokeStringAt\<close> issues no command to the document handle and leaves
  the outline in the current path, where \<^verbatim>\<open>FillStringAt\<close> issues the outline and one
  fill command and leaves the path empty.
\<close>

theorem StrokeStringAt_does_not_fill:
  "StrokeStringAt gc text' x y = CreateStringPath gc text' x y
   \<and> StrokeString gc text' = CreateStringPath gc text' 0 0
   \<and> (case StrokeStringAt sample_gc [65] 0 0 of
         Inl p \<Rightarrow> False
       | Inr (w, gc') \<Rightarrow> w = 10 \<and> issued (pdf gc') = []
           \<and> Path (Current gc') = [MoveToCmd 0 0, LineToCmd 10 0, LineToCmd 0 (- 10), LineToCmd 0 0])
   \<and> (case FillStringAt sample_gc [65] 0 0 of
         Inl p \<Rightarrow> False
       | Inr (w, gc') \<Rightarrow> w = 10
           \<and> issued (pdf gc')
               = [PdfPathOp (MoveToCmd 0 0), PdfPathOp (LineToCmd 10 0),
                  PdfPathOp (LineToCmd 0 (- 10)), PdfPathOp (LineToCmd 0 0), PdfDrawPath ''F*'']
           \<and> Path (Current gc') = [])"
proof -
  have c: "CreateStringPath sample_gc [65] 0 0
      = Inr (10, emit (sample_gc\<lparr>glyphBuf := fst (Load sample_font 0 1)\<rparr>)
                   [MoveToCmd 0 0, LineToCmd 10 0, LineToCmd 0 (- 10), LineToCmd 0 0])"
    by (simp add: CreateStringPath_eq_loop sample_gc_fields sample_font_fields Let_def
        drawGlyph_def slice_def drawContour_def drawContour_body_def drawContour_close_def
        pointToF64Point_samples Flags_pt MoveTo_def LineTo_def appendToPath_emit emit_append
        fUnitsToFloat64_samples cursor_from_0)
  show ?thesis
    unfolding StrokeString_def StrokeStringAt_def FillStringAt_def c
    by (simp add: emit_eq sample_gc_def Fill_def Let_def
        resetPath_fields draw_issued UseNonZeroWinding_def float64_of_uint32_def alphaMax_def
        NewPathStorage_def)
qed

text \<open>
  C3. \<open>FillStroke\<close> issues to the document handle, after what was issued before:
  when the alpha of the stroke colour equals that of the fill colour, the converted
  paths, an alpha update if the handle's alpha differs, and exactly one draw command,
  the combined \<^verbatim>\<open>FD\<close> (with the suffix \<^verbatim>\<open>*\<close> when the fill rule is not
  nonzero-winding), issued at that alpha; when the alphas differ, exactly two draw
  commands, first the fill \<^verbatim>\<open>F\<close> (with the same suffix) at the fill alpha, then the
  stroke \<^verbatim>\<open>S\<close> at the stroke alpha, each after the converted paths.
\<close>

theorem FillStroke_draws:
  "let p = pdf gc;
       alphaS = RGBA_a (StrokeColor (Current gc));
       alphaF = RGBA_a (FillColor (Current gc));
       rule = (if UseNonZeroWinding (FillRule (Current gc)) then [] else ''*'');
       ops = map PdfPathOp (concat paths @ Path (Current gc));
       aS = float64_of_uint32 alphaS / alphaMax;
       aF = float64_of_uint32 alphaF / alphaMax;
       setF = (if aF \<noteq> alpha p then [PdfSetAlpha aF (blendMode p)] else []);
       new = (if alphaS = alphaF
              then ops @ setF @ [PdfDrawPath (''FD'' @ rule)]
              else ops @ setF @ [PdfDrawPath (''F'' @ rule)]
                   @ ops @ [PdfSetAlpha aS (blendMode p), PdfDrawPath ''S''])
   in issued (pdf (FillStroke gc paths)) = issued p @ new
    \<and> drawn (alpha p) new
        = (if alphaS = alphaF then [(''FD'' @ rule, aF)]
           else [(''F'' @ rule, aF), (''S'', aS)])"
  by (simp add: FillStroke_def Let_def resetPath_fields draw_issued draw_alpha draw_blendMode
      draw_Current drawn_PathOps float64_of_uint32_inject del: divide_eq_eq_numeral1
      divide_eq_0_iff divide_cancel_right)

theorem FillStroke_draws_witness:
  "drawn 1 (issued (pdf (FillStroke sample_gc [[MoveToCmd 0 0, LineToCmd 1 1]])))
     = [(''FD*'', 1)]
   \<and> drawn 1 (issued (pdf (FillStroke
        (SetStrokeColor sample_gc \<lparr>RGBA_r = 0, RGBA_g = 0, RGBA_b = 0, RGBA_a = 0\<rparr>)
        [[MoveToCmd 0 0, LineToCmd 1 1]])))
     = [(''F*'', 1), (''S'', 0)]"
  using FillStroke_draws [of sample_gc "[[MoveToCmd 0 0, LineToCmd 1 1]]"]
    FillStroke_draws [of "SetStrokeColor sample_gc \<lparr>RGBA_r = 0, RGBA_g = 0, RGBA_b = 0, RGBA_a = 0\<rparr>"
      "[[MoveToCmd 0 0, LineToCmd 1 1]]"]
  by (simp add: sample_gc_def SetStrokeColor_def Let_def rgb_def issue_def UseNonZeroWinding_def
      float64_of_uint32_def alphaMax_def c255_def int_of_float64_def)

text \<open>
  C8. After \<open>Stroke\<close>, \<open>Fill\<close> and \<open>FillStroke\<close>, for any extra paths and any
  paint state, the current path is the fresh empty path. A draw converts the extra
  paths and the whole current path; a draw that follows one of the three calls
  immediately converts its own extra paths and nothing more. So do the three calls
  themselves: \<open>Stroke\<close> and \<open>Fill\<close> issue to the document handle, after what was
  issued before, all operations of the extra paths, then all operations of the current
  path, an alpha update if the handle's alpha differs, and one draw command;
  the path operations that \<open>FillStroke\<close> issues are these same operations, once when
  the alphas of stroke and fill colour are equal and twice (once per draw command)
  when they differ. Each of the three calls made right after any of the three issues
  the operations of its own extra paths only.
\<close>

theorem draw_resets_path:
  "Path (Current (Stroke gc paths)) = NewPathStorage
   \<and> Path (Current (Fill gc paths)) = NewPathStorage
   \<and> Path (Current (FillStroke gc paths)) = NewPathStorage
   \<and> NewPathStorage = []
   \<and> pathOps (drop (length (issued (pdf gc))) (issued (pdf (draw gc style a paths))))
       = concat paths @ Path (Current gc)
   \<and> pathOps (drop (length (issued (pdf (Stroke gc paths))))
                 (issued (pdf (draw (Stroke gc paths) style a paths'))))
       = concat paths'
   \<and> pathOps (drop (length (issued (pdf (Fill gc paths))))
                 (issued (pdf (draw (Fill gc paths) style a paths'))))
       = concat paths'
   \<and> pathOps (drop (length (issued (pdf (FillStroke gc paths))))
                 (issued (pdf (draw (FillStroke gc paths) style a paths'))))
       = concat paths'
   \<and> issued (pdf (Stroke gc paths))
       = issued (pdf gc) @ map PdfPathOp (concat paths @ Path (Current gc))
         @ (if float64_of_uint32 (RGBA_a (StrokeColor (Current gc))) / alphaMax \<noteq> alpha (pdf gc)
            then [PdfSetAlpha (float64_of_uint32 (RGBA_a (StrokeColor (Current gc))) / alphaMax)
                    (blendMode (pdf gc))]
            else [])
         @ [PdfDrawPath ''D'']
   \<and> issued (pdf (Fill gc paths))
       = issued (pdf gc) @ map PdfPathOp (concat paths @ Path (Current gc))
         @ (if float64_of_uint32 (RGBA_a (FillColor (Current gc))) / alphaMax \<noteq> alpha (pdf gc)
            then [PdfSetAlpha (float64_of_uint32 (RGBA_a (FillColor (Current gc))) / alphaMax)
                    (blendMode (pdf gc))]
            else [])
         @ [PdfDrawPath (if UseNonZeroWinding (FillRule (Current gc)) then ''F'' else ''F*'')]
   \<and> consumed gc (Stroke gc paths) = concat paths @ Path (Current gc)
   \<and> consumed gc (Fill gc paths) = concat paths @ Path (Current gc)
   \<and> consumed gc (FillStroke gc paths)
       = (if RGBA_a (StrokeColor (Current gc)) = RGBA_a (FillColor (Current gc))
          then concat paths @ Path (Current gc)
          else (concat paths @ Path (Current gc)) @ (concat paths @ Path (Current gc)))
   \<and> consumed (Stroke gc paths) (Stroke (Stroke gc paths) paths') = concat paths'
   \<and> consumed (Fill gc paths) (Stroke (Fill gc paths) paths') = concat paths'
   \<and> consumed (FillStroke gc paths) (Stroke (FillStroke gc paths) paths') = concat paths'
   \<and> consumed (Stroke gc paths) (Fill (Stroke gc paths) paths') = concat paths'
   \<and> consumed (Fill gc paths) (Fill (Fill gc paths) paths') = concat paths'
   \<and> consumed (FillStroke gc paths) (Fill (FillStroke gc paths) paths') = concat paths'
   \<and> consumed (Stroke gc paths) (FillStroke (Stroke gc paths) paths')
       = (if RGBA_a (StrokeColor (Current gc)) = RGBA_a (FillColor (Current gc))
          then concat paths' else concat paths' @ concat paths')
   \<and> consumed (Fill gc paths) (FillStroke (Fill gc paths) paths')
       = (if RGBA_a (StrokeColor (Current gc)) = RGBA_a (FillColor (Current gc))
          then concat paths' else concat paths' @ concat paths')
   \<and> consumed (FillStroke gc paths) (FillStroke (FillStroke gc paths) paths')
       = (if RGBA_a (StrokeColor (Current gc)) = RGBA_a (FillColor (Current gc))
          then concat paths' else concat paths' @ concat paths')"
proof -
  have r: "pathOps (drop (length (issued (pdf g))) (issued (pdf (draw g style a ps))))
      = concat ps @ Path (Current g)" for g ps
    unfolding draw_issued new_cmds by (simp add: pathOps_PathOps)
  have p: "Path (Current (Stroke gc paths)) = NewPathStorage"
    "Path (Current (Fill gc paths)) = NewPathStorage"
    "Path (Current (FillStroke gc paths)) = NewPathStorage"
    by (simp_all add: Stroke_def Fill_def FillStroke_def Let_def resetPath_fields)
  have a: "(Path (Current (Stroke gc paths)) = NewPathStorage
   \<and> Path (Current (Fill gc paths)) = NewPathStorage
   \<and> Path (Current (FillStroke gc paths)) = NewPathStorage
   \<and> NewPathStorage = []
   \<and> pathOps (drop (length (issued (pdf gc))) (issued (pdf (draw gc style a paths))))
       = concat paths @ Path (Current gc)
   \<and> pathOps (drop (length (issued (pdf (Stroke gc paths))))
                 (issued (pdf (draw (Stroke gc paths) style a paths'))))
       = concat paths'
   \<and> pathOps (drop (length (issued (pdf (Fill gc paths))))
                 (issued (pdf (draw (Fill gc paths) style a paths'))))
       = concat paths'
   \<and> pathOps (drop (length (issued (pdf (FillStroke gc paths))))
                 (issued (pdf (draw (FillStroke gc paths) style a paths'))))
       = concat paths')"
    using p by (simp add: r NewPathStorage_def)
  have b: "consumed (Stroke gc paths) (Stroke (Stroke gc paths) paths') = concat paths'
   \<and> consumed (Fill gc paths) (Stroke (Fill gc paths) paths') = concat paths'
   \<and> consumed (FillStroke gc paths) (Stroke (FillStroke gc paths) paths') = concat paths'
   \<and> consumed (Stroke gc paths) (Fill (Stroke gc paths) paths') = concat paths'
   \<and> consumed (Fill gc paths) (Fill (Fill gc paths) paths') = concat paths'
   \<and> consumed (FillStroke gc paths) (Fill (FillStroke gc paths) paths') = concat paths'"
    by (simp add: consumed_Stroke consumed_Fill p NewPathStorage_def)
  have c: "consumed (Stroke gc paths) (FillStroke (Stroke gc paths) paths')
       = (if RGBA_a (StrokeColor (Current gc)) = RGBA_a (FillColor (Current gc))
          then concat paths' else concat paths' @ concat paths')
   \<and> consumed (Fill gc paths) (FillStroke (Fill gc paths) paths')
       = (if RGBA_a (StrokeColor (Current gc)) = RGBA_a (FillColor (Current gc))
          then concat paths' else concat paths' @ concat paths')
   \<and> consumed (FillStroke gc paths) (FillStroke (FillStroke gc paths) paths')
       = (if RGBA_a (StrokeColor (Current gc)) = RGBA_a (FillColor (Current gc))
          then concat paths' else concat paths' @ concat paths')"
    by (simp add: consumed_FillStroke Current_after_draw NewPathStorage_def)
  from a b c show ?thesis
    by (simp only: Stroke_issued Fill_issued consumed_Stroke consumed_Fill consumed_FillStroke
        simp_thms)
qed

theorem draw_resets_path_witness:
  "Path (Current (Fill (LineTo (MoveTo sample_gc 0 0) 1 1) [[MoveToCmd 2 2]])) = []
   \<and> issued (pdf (Fill (LineTo (MoveTo sample_gc 0 0) 1 1) [[MoveToCmd 2 2]]))
       = [PdfPathOp (MoveToCmd 2 2), PdfPathOp (MoveToCmd 0 0), PdfPathOp (LineToCmd 1 1),
          PdfDrawPath ''F*'']
   \<and> pathOps (drop 4 (issued (pdf
        (draw (Fill (LineTo (MoveTo sample_gc 0 0) 1 1) [[MoveToCmd 2 2]]) ''D'' 65535
              [[MoveToCmd 3 3]]))))
       = [MoveToCmd 3 3]
   \<and> issued (pdf (Stroke (LineTo (MoveTo sample_gc 0 0) 1 1) [[MoveToCmd 2 2]]))
       = [PdfPathOp (MoveToCmd 2 2), PdfPathOp (MoveToCmd 0 0), PdfPathOp (LineToCmd 1 1),
          PdfDrawPath ''D'']
   \<and> consumed (LineTo (MoveTo sample_gc 0 0) 1 1)
        (FillStroke (LineTo (MoveTo sample_gc 0 0) 1 1) [[MoveToCmd 2 2]])
       = [MoveToCmd 2 2, MoveToCmd 0 0, LineToCmd 1 1]
   \<and> consumed (Stroke (LineTo (MoveTo sample_gc 0 0) 1 1) [[MoveToCmd 2 2]])
        (Stroke (Stroke (LineTo (MoveTo sample_gc 0 0) 1 1) [[MoveToCmd 2 2]]) [[MoveToCmd 3 3]])
       = [MoveToCmd 3 3]"
  using draw_resets_path [of "LineTo (MoveTo sample_gc 0 0) 1 1" "[[MoveToCmd 2 2]]"
      "''D''" 65535 "[[MoveToCmd 3 3]]"]
  by (simp add: Fill_def Let_def resetPath_fields draw_issued sample_gc_def MoveTo_def LineTo_def
      appendToPath_def UseNonZeroWinding_def float64_of_uint32_def alphaMax_def)

subsection \<open>Save and restore\<close>

lemmas setter_defs = SetFontSize_def recalc_def SetLineWidth_def SetStrokeColor_def
  SetFillColor_def SetFillRule_def SetLineCap_def SetLineJoin_def issue_def

lemma Restore_Save:
  "Restore (Save gc) =
     (case rgb (StrokeColor (Current gc)) of (rS, gS, bS) \<Rightarrow>
      case rgb (FillColor (Current gc)) of (rF, gF, bF) \<Rightarrow>
        gc\<lparr>Current := (Current gc)
               \<lparr>Scale := FontSize (Current gc) * of_int (DPI gc) * (64.0 / 72.0) / 3.0\<rparr>,
           pdf := (pdf gc)\<lparr>issued := issued (pdf gc)
             @ [PdfTransformBegin, PdfTransformEnd,
                PdfSetLineWidth (LineWidth (Current gc)),
                PdfSetDrawColor rS gS bS,
                PdfSetFillColor rF gF bF, PdfSetTextColor rF gF bF,
                PdfSetLineCapStyle (caps (Cap (Current gc))),
                PdfSetLineJoinStyle (joins (Join (Current gc)))]\<rparr>\<rparr>)"
  by (simp add: Restore_def Save_def StackGraphicContext_Save_def StackGraphicContext_Restore_def
      setter_defs Let_def split: prod.splits)

lemma Restore_issued:
  "issued (pdf (Restore gc)) =
     (let c = Current (StackGraphicContext_Restore gc)
      in case rgb (StrokeColor c) of (rS, gS, bS) \<Rightarrow>
         case rgb (FillColor c) of (rF, gF, bF) \<Rightarrow>
           issued (pdf gc)
           @ [PdfTransformEnd,
              PdfSetLineWidth (LineWidth c),
              PdfSetDrawColor rS gS bS,
              PdfSetFillColor rF gF bF, PdfSetTextColor rF gF bF,
              PdfSetLineCapStyle (caps (Cap c)),
              PdfSetLineJoinStyle (joins (Join c))])"
  by (cases "Saved gc")
     (simp_all add: Restore_def StackGraphicContext_Restore_def setter_defs Let_def
       split: prod.splits)

lemma Restore_SetLineDash_Save:
  "Dash (Current (Restore (SetLineDash (Save gc) d off))) = Dash (Current gc)
   \<and> DashOffset (Current (Restore (SetLineDash (Save gc) d off))) = DashOffset (Current gc)
   \<and> (case rgb (StrokeColor (Current gc)) of (rS, gS, bS) \<Rightarrow>
       case rgb (FillColor (Current gc)) of (rF, gF, bF) \<Rightarrow>
         issued (pdf (Restore (SetLineDash (Save gc) d off))) = issued (pdf gc)
           @ [PdfTransformBegin, PdfSetDashPattern d off, PdfTransformEnd,
              PdfSetLineWidth (LineWidth (Current gc)),
              PdfSetDrawColor rS gS bS,
              PdfSetFillColor rF gF bF, PdfSetTextColor rF gF bF,
              PdfSetLineCapStyle (caps (Cap (Current gc))),
              PdfSetLineJoinStyle (joins (Join (Current gc)))])"
  by (simp add: Restore_def Save_def SetLineDash_def StackGraphicContext_Save_def
      StackGraphicContext_Restore_def setter_defs Let_def split: prod.splits)

text \<open>
  C9 (as amended). A \<open>Save\<close> immediately followed by \<open>Restore\<close> leaves stroke
  colour, fill colour, line width, line cap, line join and fill rule equal to their
  values before the \<open>Save\<close>; indeed it leaves the whole context as it was, but for the
  glyph scale, recomputed from font size and DPI, and the commands issued. \<open>Restore\<close>
  re-applies line width, stroke colour, fill colour (also as text colour), line cap and
  line join to the document handle, in this order, after the end of the transform
  block; the fill rule and the font size are re-applied to the context state only: the
  document handle receives no command for them. Nor does \<open>Restore\<close> issue any command
  for the font, the dash pattern or the path: after \<open>Save\<close>, \<open>SetLineDash\<close>,
  \<open>Restore\<close> the state holds the dash pattern of before the \<open>Save\<close>, and the last
  dash pattern that the document handle received is the one set in between.
\<close>

theorem Save_Restore_paint_state:
  "StrokeColor (Current (Restore (Save gc))) = StrokeColor (Current gc)
   \<and> FillColor (Current (Restore (Save gc))) = FillColor (Current gc)
   \<and> LineWidth (Current (Restore (Save gc))) = LineWidth (Current gc)
   \<and> Cap (Current (Restore (Save gc))) = Cap (Current gc)
   \<and> Join (Current (Restore (Save gc))) = Join (Current gc)
   \<and> FillRule (Current (Restore (Save gc))) = FillRule (Current gc)
   \<and> (case rgb (StrokeColor (Current gc)) of (rS, gS, bS) \<Rightarrow>
       case rgb (FillColor (Current gc)) of (rF, gF, bF) \<Rightarrow>
         Restore (Save gc) =
           gc\<lparr>Current := (Current gc)
                  \<lparr>Scale := FontSize (Current gc) * of_int (DPI gc) * (64.0 / 72.0) / 3.0\<rparr>,
              pdf := (pdf gc)\<lparr>issued := issued (pdf gc)
                @ [PdfTransformBegin, PdfTransformEnd,
                   PdfSetLineWidth (LineWidth (Current gc)),
                   PdfSetDrawColor rS gS bS,
                   PdfSetFillColor rF gF bF, PdfSetTextColor rF gF bF,
                   PdfSetLineCapStyle (caps (Cap (Current gc))),
                   PdfSetLineJoinStyle (joins (Join (Current gc)))]\<rparr>\<rparr>)
   \<and> (let c = Current (StackGraphicContext_Restore gc)
      in case rgb (StrokeColor c) of (rS, gS, bS) \<Rightarrow>
         case rgb (FillColor c) of (rF, gF, bF) \<Rightarrow>
           issued (pdf (Restore gc)) = issued (pdf gc)
           @ [PdfTransformEnd,
              PdfSetLineWidth (LineWidth c),
              PdfSetDrawColor rS gS bS,
              PdfSetFillColor rF gF bF, PdfSetTextColor rF gF bF,
              PdfSetLineCapStyle (caps (Cap c)),
              PdfSetLineJoinStyle (joins (Join c))])
   \<and> Dash (Current (Restore (SetLineDash (Save gc) d off))) = Dash (Current gc)
   \<and> DashOffset (Current (Restore (SetLineDash (Save gc) d off))) = DashOffset (Current gc)
   \<and> (case rgb (StrokeColor (Current gc)) of (rS, gS, bS) \<Rightarrow>
       case rgb (FillColor (Current gc)) of (rF, gF, bF) \<Rightarrow>
         issued (pdf (Restore (SetLineDash (Save gc) d off))) = issued (pdf gc)
           @ [PdfTransformBegin, PdfSetDashPattern d off, PdfTransformEnd,
              PdfSetLineWidth (LineWidth (Current gc)),
              PdfSetDrawColor rS gS bS,
              PdfSetFillColor rF gF bF, PdfSetTextColor rF gF bF,
              PdfSetLineCapStyle (caps (Cap (Current gc))),
              PdfSetLineJoinStyle (joins (Join (Current gc)))])"
proof -
  have six: "StrokeColor (Current (Restore (Save gc))) = StrokeColor (Current gc)
   \<and> FillColor (Current (Restore (Save gc))) = FillColor (Current gc)
   \<and> LineWidth (Current (Restore (Save gc))) = LineWidth (Current gc)
   \<and> Cap (Current (Restore (Save gc))) = Cap (Current gc)
   \<and> Join (Current (Restore (Save gc))) = Join (Current gc)
   \<and> FillRule (Current (Restore (Save gc))) = FillRule (Current gc)"
    unfolding Restore_Save by (simp split: prod.splits)
  have all: "case rgb (StrokeColor (Current gc)) of (rS, gS, bS) \<Rightarrow>
       case rgb (FillColor (Current gc)) of (rF, gF, bF) \<Rightarrow>
         Restore (Save gc) =
           gc\<lparr>Current := (Current gc)
                  \<lparr>Scale := FontSize (Current gc) * of_int (DPI gc) * (64.0 / 72.0) / 3.0\<rparr>,
              pdf := (pdf gc)\<lparr>issued := issued (pdf gc)
                @ [PdfTransformBegin, PdfTransformEnd,
                   PdfSetLineWidth (LineWidth (Current gc)),
                   PdfSetDrawColor rS gS bS,
                   PdfSetFillColor rF gF bF, PdfSetTextColor rF gF bF,
                   PdfSetLineCapStyle (caps (Cap (Current gc))),
                   PdfSetLineJoinStyle (joins (Join (Current gc)))]\<rparr>\<rparr>"
    unfolding Restore_Save by (simp split: prod.splits)
  have one: "let c = Current (StackGraphicContext_Restore gc)
      in case rgb (StrokeColor c) of (rS, gS, bS) \<Rightarrow>
         case rgb (FillColor c) of (rF, gF, bF) \<Rightarrow>
           issued (pdf (Restore gc)) = issued (pdf gc)
           @ [PdfTransformEnd,
              PdfSetLineWidth (LineWidth c),
              PdfSetDrawColor rS gS bS,
              PdfSetFillColor rF gF bF, PdfSetTextColor rF gF bF,
              PdfSetLineCapStyle (caps (Cap c)),
              PdfSetLineJoinStyle (joins (Join c))]"
    unfolding Restore_issued by (simp add: Let_def split: prod.splits)
  from six all one Restore_SetLineDash_Save [of gc d off] show ?thesis
    by (elim conjE, intro conjI) assumption+
qed

theorem Save_Restore_paint_state_witness:
  "issued (pdf (Restore (Save sample_gc)))
     = [PdfTransformBegin, PdfTransformEnd, PdfSetLineWidth 1, PdfSetDrawColor 0 0 0,
        PdfSetFillColor 255 255 255, PdfSetTextColor 255 255 255,
        PdfSetLineCapStyle ''round'', PdfSetLineJoinStyle ''round'']
   \<and> FillRule (Current (Restore (Save sample_gc))) = FillRuleEvenOdd
   \<and> Dash (Current (Restore (SetLineDash (Save sample_gc) [3, 1] 0))) = []
   \<and> issued (pdf (Restore (SetLineDash (Save sample_gc) [3, 1] 0)))
     = [PdfTransformBegin, PdfSetDashPattern [3, 1] 0, PdfTransformEnd, PdfSetLineWidth 1,
        PdfSetDrawColor 0 0 0, PdfSetFillColor 255 255 255, PdfSetTextColor 255 255 255,
        PdfSetLineCapStyle ''round'', PdfSetLineJoinStyle ''round'']"
  using Save_Restore_paint_state [of sample_gc "[3, 1]" 0]
  by (simp add: sample_gc_def rgb_def c255_def float64_of_uint32_def int_of_float64_def)

text \<open>
  The claim C9 as it was stated has the fill rule re-applied to the document handle.
  It is not: two contexts that differ in the fill rule only leave the same document
  handle after \<open>Save\<close> and \<open>Restore\<close>, and no command issued carries the fill rule.
\<close>

theorem Restore_fill_rule_counterexample:
  "FillRule (Current (SetFillRule sample_gc FillRuleWinding)) \<noteq> FillRule (Current sample_gc)
   \<and> pdf (Restore (Save (SetFillRule sample_gc FillRuleWinding))) = pdf (Restore (Save sample_gc))
   \<and> issued (pdf (Restore (Save sample_gc)))
     = [PdfTransformBegin, PdfTransformEnd, PdfSetLineWidth 1, PdfSetDrawColor 0 0 0,
        PdfSetFillColor 255 255 255, PdfSetTextColor 255 255 255,
        PdfSetLineCapStyle ''round'', PdfSetLineJoinStyle ''round'']"
  by (simp add: Restore_Save sample_gc_def SetFillRule_def rgb_def c255_def float64_of_uint32_def
      int_of_float64_def)

end
